theory Spec2Isabelle
  imports Main "HOL-Library.Sublist"
begin

section \<open>The macOS launchers of RedHoleEngine and RedHoleGame\<close>

text \<open>
  Both \<^verbatim>\<open>macos_launcher.c\<close> files consist of \<^verbatim>\<open>file_exists\<close> and \<^verbatim>\<open>main\<close>.
  A C string is modelled by the characters in front of its terminator, so a
  \<^verbatim>\<open>char buf[n]\<close> can hold a string of at most \<open>n - 1\<close> characters.
  The calls into libc and the operating system are the fields of a record
  \<open>platform\<close>; everything \<^verbatim>\<open>main\<close> itself computes is defined below.
  \<^verbatim>\<open>malloc\<close> and \<^verbatim>\<open>setenv\<close> are taken to succeed, as the source does not
  check them; \<^verbatim>\<open>dirname\<close> and \<^verbatim>\<open>basename\<close> are functions of the path they are
  given and leave it as it is.
\<close>

subsection \<open>Platform\<close>

type_synonym env = "string \<rightharpoonup> string"

record platform =
  NSGetExecutablePath :: "nat \<Rightarrow> string option"
    \<comment> \<open>\<^verbatim>\<open>_NSGetExecutablePath(buf, &size)\<close> for a buffer of the given size:
        the path copied into \<^verbatim>\<open>buf\<close>, or \<open>None\<close> when the call returns non-zero\<close>
  realpath :: "string \<Rightarrow> string option"
    \<comment> \<open>\<^verbatim>\<open>realpath(path, NULL)\<close>; \<open>None\<close> is the \<^verbatim>\<open>NULL\<close> result\<close>
  dirname :: "string \<Rightarrow> string"
  basename :: "string \<Rightarrow> string"
  access :: "string \<Rightarrow> bool"
    \<comment> \<open>\<^verbatim>\<open>access(path, F_OK) == 0\<close>\<close>
  environ :: env
    \<comment> \<open>the environment the launcher is started with\<close>
  execvp :: "string \<Rightarrow> string list \<Rightarrow> env \<Rightarrow> bool"
    \<comment> \<open>\<open>True\<close>: the process image is replaced and the call never returns;
        \<open>False\<close>: the call returns \<open>-1\<close>\<close>

definition file_exists :: "platform \<Rightarrow> string \<Rightarrow> bool" where
  "file_exists p path = access p path"

definition getenv :: "env \<Rightarrow> string \<Rightarrow> string option" where
  "getenv e name = e name"

definition setenv :: "env \<Rightarrow> string \<Rightarrow> string \<Rightarrow> env" where
  \<comment> \<open>\<^verbatim>\<open>setenv(name, value, 1)\<close>: always overwrites\<close>
  "setenv e name val = e(name \<mapsto> val)"

definition PATH_MAX :: nat where
  \<comment> \<open>the limit of macOS, the platform the source is written for (it includes
      \<^verbatim>\<open>mach-o/dyld.h\<close>): there \<^verbatim>\<open>realpath\<close>, \<^verbatim>\<open>dirname\<close> and \<^verbatim>\<open>basename\<close> return
      strings of fewer than \<^verbatim>\<open>PATH_MAX\<close> characters\<close>
  "PATH_MAX = 1024"

subsection \<open>Bounded string writes\<close>

definition MAX_PATH :: nat where
  "MAX_PATH = 4096"

definition snprintf :: "nat \<Rightarrow> string \<Rightarrow> string" where
  \<comment> \<open>\<^verbatim>\<open>snprintf(buf, n, fmt, ...)\<close>, the second argument being the formatted
      text: at most \<open>n - 1\<close> characters are stored, then the terminator\<close>
  "snprintf n text = take (n - 1) text"

definition strncpy_terminated :: "nat \<Rightarrow> string \<Rightarrow> string" where
  \<comment> \<open>\<^verbatim>\<open>strncpy(dst, src, n); dst[n] = '\0';\<close>\<close>
  "strncpy_terminated n src = take n src"

fun strstr :: "string \<Rightarrow> string \<Rightarrow> string option" where
  \<comment> \<open>\<^verbatim>\<open>strstr(haystack, needle)\<close>: the haystack from the first occurrence on,
      \<open>None\<close> for \<^verbatim>\<open>NULL\<close>\<close>
  "strstr [] needle = (if needle = [] then Some [] else None)"
| "strstr (c # cs) needle =
     (if prefix needle (c # cs) then Some (c # cs) else strstr cs needle)"

subsection \<open>The same writes on byte arrays\<close>

text \<open>
  A buffer is the list of its bytes. A write that ran past the end of the buffer would
  make the list longer; the string a buffer holds ends in front of its first NUL.
\<close>

definition NUL :: char where
  "NUL = CHR 0x00"

definition c_str :: "char list \<Rightarrow> string" where
  "c_str buf = takeWhile (\<lambda>c. c \<noteq> NUL) buf"

definition snprintf_bytes :: "char list \<Rightarrow> nat \<Rightarrow> string \<Rightarrow> char list" where
  \<comment> \<open>\<^verbatim>\<open>buf\<close> after \<^verbatim>\<open>snprintf(buf, n, fmt, ...)\<close>: the first \<open>n - 1\<close> characters of the
      formatted text and a NUL are written from index 0 on; nothing when \<open>n = 0\<close>\<close>
  "snprintf_bytes buf n text =
     (if n = 0 then buf
      else (let written = take (n - 1) text @ [NUL]
            in written @ drop (length written) buf))"

definition strncpy_bytes :: "char list \<Rightarrow> string \<Rightarrow> nat \<Rightarrow> char list" where
  \<comment> \<open>\<^verbatim>\<open>dst\<close> after \<^verbatim>\<open>strncpy(dst, src, n)\<close>: exactly \<open>n\<close> bytes are written, the
      characters of \<^verbatim>\<open>src\<close> and then NULs\<close>
  "strncpy_bytes dst src n = take n (src @ replicate n NUL) @ drop n dst"

subsection \<open>Constants of the source\<close>

definition DYLD_LIBRARY_PATH :: string where
  "DYLD_LIBRARY_PATH = ''DYLD_LIBRARY_PATH''"

definition VK_ICD_FILENAMES :: string where
  "VK_ICD_FILENAMES = ''VK_ICD_FILENAMES''"

definition VK_DRIVER_FILES :: string where
  "VK_DRIVER_FILES = ''VK_DRIVER_FILES''"

definition brew_icd :: string where
  "brew_icd = ''/opt/homebrew/share/vulkan/icd.d/MoltenVK_icd.json''"

definition local_icd :: string where
  "local_icd = ''/usr/local/share/vulkan/icd.d/MoltenVK_icd.json''"

definition msg_no_exe_path :: string where
  "msg_no_exe_path = ''Error: Could not get executable path'' @ [CHR 0x0A]"

definition msg_no_real_path :: string where
  "msg_no_real_path = ''Error: Could not resolve path'' @ [CHR 0x0A]"

definition msg_no_exec :: string where
  "msg_no_exec = ''Error: Could not execute dotnet'' @ [CHR 0x0A]"

subsection \<open>RedHoleEngine: the sections of \<^verbatim>\<open>main\<close>\<close>

record paths =
  exe_name :: string
  dll_name :: string
  dll_path :: string
  icd_path :: string
  dyld_path :: string
  native_path :: string

definition build_paths :: "string \<Rightarrow> string \<Rightarrow> paths" where
  \<comment> \<open>"Build paths" and "Determine managed DLL name from executable name";
      \<open>dir\<close> is \<^verbatim>\<open>dirname(real_path)\<close>, \<open>base\<close> is \<^verbatim>\<open>basename(real_path)\<close>\<close>
  "build_paths dir base =
     (let exe_name = strncpy_terminated (MAX_PATH - 1) base;
          dll_name = snprintf MAX_PATH (exe_name @ ''.dll'')
      in \<lparr> exe_name = exe_name,
           dll_name = dll_name,
           dll_path = snprintf MAX_PATH (dir @ ''/'' @ dll_name),
           icd_path = snprintf MAX_PATH (dir @ ''/runtimes/osx/native/MoltenVK_icd.json''),
           dyld_path = snprintf MAX_PATH dir,
           native_path = snprintf MAX_PATH (dir @ ''/runtimes/osx/native'') \<rparr>)"

definition set_dyld_library_path :: "paths \<Rightarrow> env \<Rightarrow> env" where
  \<comment> \<open>"Get existing DYLD_LIBRARY_PATH"\<close>
  "set_dyld_library_path b e =
     (case getenv e DYLD_LIBRARY_PATH of
        Some existing_dyld \<Rightarrow>
          if length existing_dyld > 0
          then setenv e DYLD_LIBRARY_PATH
                 (snprintf (MAX_PATH * 2)
                    (dyld_path b @ '':'' @ native_path b @ '':'' @ existing_dyld))
          else setenv e DYLD_LIBRARY_PATH
                 (snprintf (MAX_PATH * 2) (dyld_path b @ '':'' @ native_path b))
      | None \<Rightarrow>
          setenv e DYLD_LIBRARY_PATH
            (snprintf (MAX_PATH * 2) (dyld_path b @ '':'' @ native_path b)))"

definition add_homebrew_loader_path :: "platform \<Rightarrow> env \<Rightarrow> env" where
  \<comment> \<open>"Add Homebrew Vulkan loader path if present"\<close>
  "add_homebrew_loader_path p e =
     (if file_exists p ''/opt/homebrew/lib/libvulkan.dylib''
      then (case getenv e DYLD_LIBRARY_PATH of
              Some dyld \<Rightarrow>
                if strstr dyld ''/opt/homebrew/lib'' = None
                then setenv e DYLD_LIBRARY_PATH
                       (snprintf (MAX_PATH * 2) (dyld @ '':/opt/homebrew/lib''))
                else e
            | None \<Rightarrow> e)
      else e)"

definition select_icd_path :: "platform \<Rightarrow> string \<Rightarrow> string" where
  \<comment> \<open>"Set Vulkan ICD paths": the contents of \<^verbatim>\<open>icd_path\<close> after the probes\<close>
  "select_icd_path p icd =
     (if \<not> file_exists p icd
      then (if file_exists p brew_icd then strncpy_terminated (MAX_PATH - 1) brew_icd
            else if file_exists p local_icd then strncpy_terminated (MAX_PATH - 1) local_icd
            else icd)
      else icd)"

definition set_icd_variables :: "string \<Rightarrow> env \<Rightarrow> env" where
  "set_icd_variables icd e = setenv (setenv e VK_ICD_FILENAMES icd) VK_DRIVER_FILES icd"

datatype pointer = Uninit | NULL | Str string

function copy_args :: "nat \<Rightarrow> string list \<Rightarrow> pointer list \<Rightarrow> pointer list" where
  \<comment> \<open>\<^verbatim>\<open>for (; i < argc; i++) new_argv[i + 1] = argv[i];\<close> with \<open>argc = length argv\<close>\<close>
  "copy_args i argv new_argv =
     (if i < length argv
      then copy_args (i + 1) argv (new_argv[i + 1 := Str (argv ! i)])
      else new_argv)"
  by pat_completeness auto
termination
  by (relation "measure (\<lambda>(i, argv, new_argv). length argv - i)") auto

definition build_argv :: "string \<Rightarrow> string list \<Rightarrow> pointer list" where
  \<comment> \<open>"Build arguments for dotnet": the \<open>argc + 3\<close> slots returned by \<^verbatim>\<open>malloc\<close>
      hold nothing at first\<close>
  "build_argv dll argv =
     (let argc = length argv;
          new_argv = replicate (argc + 3) Uninit;
          new_argv = new_argv[0 := Str ''dotnet''];
          new_argv = new_argv[1 := Str dll];
          new_argv = copy_args 1 argv new_argv
      in new_argv[argc + 1 := NULL])"

fun read_argv :: "pointer list \<Rightarrow> string list option" where
  \<comment> \<open>the argument vector as \<^verbatim>\<open>execvp\<close> reads it: the strings in front of the
      first \<^verbatim>\<open>NULL\<close>; \<open>None\<close> when it would read a slot never written or run
      past the allocation\<close>
  "read_argv [] = None"
| "read_argv (Uninit # ps) = None"
| "read_argv (NULL # ps) = Some []"
| "read_argv (Str s # ps) = map_option ((#) s) (read_argv ps)"

datatype outcome =
    Exit int "string list"
      \<comment> \<open>\<^verbatim>\<open>main\<close> returns the status; the lines written to \<^verbatim>\<open>stderr\<close>\<close>
  | Replaced string "string list" env
      \<comment> \<open>the process image is replaced: file, argument vector, environment\<close>
  | Undefined
      \<comment> \<open>\<^verbatim>\<open>execvp\<close> is handed a vector that is not terminated\<close>

definition configure :: "platform \<Rightarrow> paths \<Rightarrow> env" where
  \<comment> \<open>the environment after "Set environment variables" up to "Set Vulkan ICD paths"\<close>
  "configure p b =
     set_icd_variables (select_icd_path p (icd_path b))
       (add_homebrew_loader_path p (set_dyld_library_path b (environ p)))"

definition main :: "platform \<Rightarrow> string list \<Rightarrow> outcome" where
  "main p argv =
     (case NSGetExecutablePath p MAX_PATH of
        None \<Rightarrow> Exit 1 [msg_no_exe_path]
      | Some exe_path \<Rightarrow>
          (case realpath p exe_path of
             None \<Rightarrow> Exit 1 [msg_no_real_path]
           | Some real_path \<Rightarrow>
               (let b = build_paths (dirname p real_path) (basename p real_path);
                    e = configure p b
                in case read_argv (build_argv (dll_path b) argv) of
                     None \<Rightarrow> Undefined
                   | Some args \<Rightarrow>
                       if execvp p ''dotnet'' args e
                       then Replaced ''dotnet'' args e
                       else Exit 1 [msg_no_exec])))"

subsection \<open>RedHoleGame: \<^verbatim>\<open>main\<close>, statement by statement\<close>

definition main_RedHoleGame :: "platform \<Rightarrow> string list \<Rightarrow> outcome" where
  "main_RedHoleGame p argv =
     (case NSGetExecutablePath p MAX_PATH of
        None \<Rightarrow> Exit 1 [''Error: Could not get executable path'' @ [CHR 0x0A]]
      | Some exe_path \<Rightarrow>
          (case realpath p exe_path of
             None \<Rightarrow> Exit 1 [''Error: Could not resolve path'' @ [CHR 0x0A]]
           | Some real_path \<Rightarrow>
               (let dir = dirname p real_path;
                    exe_name = strncpy_terminated (MAX_PATH - 1) (basename p real_path);
                    dll_name = snprintf MAX_PATH (exe_name @ ''.dll'');
                    dll_path = snprintf MAX_PATH (dir @ ''/'' @ dll_name);
                    icd_path = snprintf MAX_PATH (dir @ ''/runtimes/osx/native/MoltenVK_icd.json'');
                    dyld_path = snprintf MAX_PATH dir;
                    native_path = snprintf MAX_PATH (dir @ ''/runtimes/osx/native'');
                    e = environ p;
                    e = (case getenv e ''DYLD_LIBRARY_PATH'' of
                           Some existing_dyld \<Rightarrow>
                             if length existing_dyld > 0
                             then setenv e ''DYLD_LIBRARY_PATH''
                                    (snprintf (MAX_PATH * 2)
                                       (dyld_path @ '':'' @ native_path @ '':'' @ existing_dyld))
                             else setenv e ''DYLD_LIBRARY_PATH''
                                    (snprintf (MAX_PATH * 2) (dyld_path @ '':'' @ native_path))
                         | None \<Rightarrow>
                             setenv e ''DYLD_LIBRARY_PATH''
                               (snprintf (MAX_PATH * 2) (dyld_path @ '':'' @ native_path)));
                    e = (if file_exists p ''/opt/homebrew/lib/libvulkan.dylib''
                         then (case getenv e ''DYLD_LIBRARY_PATH'' of
                                 Some dyld \<Rightarrow>
                                   if strstr dyld ''/opt/homebrew/lib'' = None
                                   then setenv e ''DYLD_LIBRARY_PATH''
                                          (snprintf (MAX_PATH * 2) (dyld @ '':/opt/homebrew/lib''))
                                   else e
                               | None \<Rightarrow> e)
                         else e);
                    icd_path =
                      (if \<not> file_exists p icd_path
                       then (if file_exists p ''/opt/homebrew/share/vulkan/icd.d/MoltenVK_icd.json''
                             then strncpy_terminated (MAX_PATH - 1)
                                    ''/opt/homebrew/share/vulkan/icd.d/MoltenVK_icd.json''
                             else if file_exists p ''/usr/local/share/vulkan/icd.d/MoltenVK_icd.json''
                             then strncpy_terminated (MAX_PATH - 1)
                                    ''/usr/local/share/vulkan/icd.d/MoltenVK_icd.json''
                             else icd_path)
                       else icd_path);
                    e = setenv e ''VK_ICD_FILENAMES'' icd_path;
                    e = setenv e ''VK_DRIVER_FILES'' icd_path;
                    argc = length argv;
                    new_argv = replicate (argc + 3) Uninit;
                    new_argv = new_argv[0 := Str ''dotnet''];
                    new_argv = new_argv[1 := Str dll_path];
                    new_argv = copy_args 1 argv new_argv;
                    new_argv = new_argv[argc + 1 := NULL]
                in case read_argv new_argv of
                     None \<Rightarrow> Undefined
                   | Some args \<Rightarrow>
                       if execvp p ''dotnet'' args e
                       then Replaced ''dotnet'' args e
                       else Exit 1 [''Error: Could not execute dotnet'' @ [CHR 0x0A]])))"

subsection \<open>A platform to run the launchers on\<close>

definition strip_slashes :: "string \<Rightarrow> string" where
  "strip_slashes path = rev (dropWhile (\<lambda>c. c = CHR ''/'') (rev path))"

definition posix_basename :: "string \<Rightarrow> string" where
  \<comment> \<open>\<^verbatim>\<open>basename(3)\<close> as POSIX describes it\<close>
  "posix_basename path =
     (if path = [] then ''.''
      else if strip_slashes path = [] then ''/''
      else rev (takeWhile (\<lambda>c. c \<noteq> CHR ''/'') (rev (strip_slashes path))))"

definition posix_dirname :: "string \<Rightarrow> string" where
  \<comment> \<open>\<^verbatim>\<open>dirname(3)\<close> as POSIX describes it\<close>
  "posix_dirname path =
     (if path = [] then ''.''
      else if strip_slashes path = [] then ''/''
      else if CHR ''/'' \<notin> set (strip_slashes path) then ''.''
      else (let d = strip_slashes
                      (rev (dropWhile (\<lambda>c. c \<noteq> CHR ''/'') (rev (strip_slashes path))))
            in if d = [] then ''/'' else d))"

definition example_platform ::
    "string \<Rightarrow> string list \<Rightarrow> (string \<times> string) list \<Rightarrow> platform" where
  \<comment> \<open>the executable's path with no symbolic link in it, the files that exist, the
      environment; \<^verbatim>\<open>dotnet\<close> can be started\<close>
  "example_platform exe files vars =
     \<lparr> NSGetExecutablePath = (\<lambda>n. if length exe < n then Some exe else None),
       realpath = Some,
       dirname = posix_dirname,
       basename = posix_basename,
       access = (\<lambda>path. path \<in> set files),
       environ = map_of vars,
       execvp = (\<lambda>file args e. True) \<rparr>"

definition long_dir :: string where
  \<comment> \<open>a directory name of 4089 characters\<close>
  "long_dir = CHR ''/'' # replicate 4088 CHR ''d''"

definition long_value :: string where
  \<comment> \<open>a search path of 9000 characters\<close>
  "long_value = replicate 9000 CHR ''a''"

subsection \<open>The search path as the spec reads it\<close>

fun search_path_entries :: "string \<Rightarrow> string list" where
  \<comment> \<open>the directories a colon-separated search path lists; the spec speaks of a
      directory "present in the library search path"\<close>
  "search_path_entries [] = [[]]"
| "search_path_entries (c # cs) =
     (if c = CHR '':'' then [] # search_path_entries cs
      else (case search_path_entries cs of
              [] \<Rightarrow> [[c]]
            | entry # entries \<Rightarrow> (c # entry) # entries))"

section \<open>Properties\<close>

subsection \<open>Bounded writes and the argument vector\<close>

lemma snprintf_fits: "length text < n \<Longrightarrow> snprintf n text = text"
  by (simp add: snprintf_def)

lemma snprintf_length: "0 < n \<Longrightarrow> length (snprintf n text) < n"
  by (auto simp add: snprintf_def min_def)

lemma snprintf_snprintf_append:
  "snprintf n (pre @ snprintf n text) = snprintf n (pre @ text)"
  by (simp add: snprintf_def min_def)

lemma copy_args_eq:
  "i \<le> length argv \<Longrightarrow> length argv < length new_argv \<Longrightarrow>
   copy_args i argv new_argv =
     take (i + 1) new_argv @ map Str (drop i argv) @ drop (length argv + 1) new_argv"
proof (induction i argv new_argv rule: copy_args.induct)
  case (1 i argv new_argv)
  show ?case
  proof (cases "i < length argv")
    case True
    let ?upd = "new_argv[i + 1 := Str (argv ! i)]"
    have step: "copy_args i argv new_argv = copy_args (i + 1) argv ?upd"
      using True by (subst copy_args.simps) simp
    have ih: "copy_args (i + 1) argv ?upd =
        take (i + 1 + 1) ?upd @ map Str (drop (i + 1) argv) @ drop (length argv + 1) ?upd"
      using "1.IH" [OF True] True "1.prems" by simp
    have hd_part: "take (i + 1 + 1) ?upd = take (i + 1) new_argv @ [Str (argv ! i)]"
      using True "1.prems" by (simp add: take_Suc_conv_app_nth)
    have tl_part: "drop (length argv + 1) ?upd = drop (length argv + 1) new_argv"
      using True by simp
    have mid: "map Str (drop i argv) = Str (argv ! i) # map Str (drop (i + 1) argv)"
      using True by (simp add: Cons_nth_drop_Suc [symmetric])
    show ?thesis
      by (simp only: step ih hd_part tl_part mid append_assoc append_Cons append_Nil)
  next
    case False
    with "1.prems" have "i = length argv" by simp
    then show ?thesis using "1.prems"
      by (subst copy_args.simps) simp
  qed
qed

lemma build_argv_Cons:
  "build_argv dll (a0 # args) = Str ''dotnet'' # Str dll # map Str args @ [NULL, Uninit]"
proof -
  let ?n = "length args"
  let ?front = "Str ''dotnet'' # Str dll # map Str args"
  have alloc: "replicate (length (a0 # args) + 3) Uninit =
      Uninit # Uninit # replicate (?n + 2) Uninit"
    by (simp add: numeral_3_eq_3)
  have init: "(Uninit # Uninit # replicate (?n + 2) Uninit)[0 := Str ''dotnet'', 1 := Str dll] =
      Str ''dotnet'' # Str dll # replicate (?n + 2) Uninit"
    by simp
  have two: "replicate 2 Uninit = [Uninit, Uninit]"
    by (simp add: numeral_2_eq_2)
  have "drop ?n (replicate (?n + 2) Uninit) = drop ?n (replicate ?n Uninit @ replicate 2 Uninit)"
    by (simp only: replicate_add)
  then have rest: "drop ?n (replicate (?n + 2) Uninit) = [Uninit, Uninit]"
    by (simp only: two drop_append length_replicate drop_replicate diff_self_eq_0 replicate_0
        append_Nil drop_0)
  have copy: "copy_args 1 (a0 # args) (Str ''dotnet'' # Str dll # replicate (?n + 2) Uninit) =
      ?front @ [Uninit, Uninit]"
    using copy_args_eq [of 1 "a0 # args" "Str ''dotnet'' # Str dll # replicate (?n + 2) Uninit"] rest
    by simp
  have len: "length (a0 # args) + 1 = length ?front"
    by simp
  have fin: "(?front @ [Uninit, Uninit])[length ?front := NULL] = ?front @ [NULL, Uninit]"
    by (rule list_update_length)
  have "build_argv dll (a0 # args) = (?front @ [Uninit, Uninit])[length (a0 # args) + 1 := NULL]"
    unfolding build_argv_def Let_def alloc init copy ..
  also have "\<dots> = ?front @ [NULL, Uninit]"
    unfolding len by (rule fin)
  finally show ?thesis by simp
qed

lemma build_argv_Nil: "build_argv dll [] = [Str ''dotnet'', NULL, Uninit]"
proof -
  have alloc: "replicate (length ([]::string list) + 3) Uninit = [Uninit, Uninit, Uninit]"
    by (simp add: numeral_3_eq_3)
  have copy: "copy_args 1 [] xs = xs" for xs
    by (subst copy_args.simps) simp
  show ?thesis
    unfolding build_argv_def Let_def alloc copy by simp
qed

lemma read_argv_strs: "read_argv (map Str xs @ NULL # ps) = Some xs"
  by (induction xs) simp_all

lemma read_build_argv:
  "read_argv (build_argv dll argv) =
     Some (case argv of [] \<Rightarrow> [''dotnet''] | a0 # args \<Rightarrow> ''dotnet'' # dll # args)"
proof (cases argv)
  case Nil
  then show ?thesis by (simp add: build_argv_Nil)
next
  case (Cons a0 args)
  then show ?thesis using read_argv_strs [of args "[Uninit]"]
    by (simp add: build_argv_Cons)
qed


lemma main_started:
  assumes "NSGetExecutablePath p MAX_PATH = Some exe" and "realpath p exe = Some rp"
  shows "main p argv =
     (let b = build_paths (dirname p rp) (basename p rp);
          args = (case argv of [] \<Rightarrow> [''dotnet''] | a0 # as \<Rightarrow> ''dotnet'' # dll_path b # as);
          e = configure p b
      in if execvp p ''dotnet'' args e then Replaced ''dotnet'' args e else Exit 1 [msg_no_exec])"
  using assms by (simp add: main_def Let_def read_build_argv)

lemma example_platform_simps:
  "NSGetExecutablePath (example_platform exe files vars) n = (if length exe < n then Some exe else None)"
  "realpath (example_platform exe files vars) path = Some path"
  "dirname (example_platform exe files vars) = posix_dirname"
  "basename (example_platform exe files vars) = posix_basename"
  "access (example_platform exe files vars) path = (path \<in> set files)"
  "environ (example_platform exe files vars) = map_of vars"
  "execvp (example_platform exe files vars) file args e = True"
  by (simp_all add: example_platform_def)

lemma posix_split:
  assumes "CHR ''/'' \<notin> set base" and "base \<noteq> []" and "dir \<noteq> []" and "last dir \<noteq> CHR ''/''"
  shows "posix_dirname (dir @ ''/'' @ base) = dir" and "posix_basename (dir @ ''/'' @ base) = base"
proof -
  let ?path = "dir @ CHR ''/'' # base"
  have last_base: "last base \<noteq> CHR ''/''"
    using assms(1,2) last_in_set by metis
  have strip: "strip_slashes ?path = ?path"
    using assms(2) last_base by (cases base rule: rev_cases) (simp_all add: strip_slashes_def)
  have rev_path: "rev ?path = rev base @ CHR ''/'' # rev dir"
    by simp
  have tw: "takeWhile (\<lambda>c. c \<noteq> CHR ''/'') (rev base @ CHR ''/'' # rev dir) = rev base"
    using assms(1) by (subst takeWhile_append2) auto
  have dw: "dropWhile (\<lambda>c. c \<noteq> CHR ''/'') (rev base @ CHR ''/'' # rev dir) = CHR ''/'' # rev dir"
    using assms(1) by (subst dropWhile_append2) auto
  have strip_dir: "strip_slashes (rev (CHR ''/'' # rev dir)) = dir"
    using assms(3,4) by (cases dir rule: rev_cases) (simp_all add: strip_slashes_def)
  have nonempty: "?path \<noteq> []" and slash: "CHR ''/'' \<in> set ?path"
    by simp_all
  have "posix_dirname ?path = dir"
    unfolding posix_dirname_def strip rev_path dw strip_dir Let_def
    using nonempty slash assms(3) by simp
  then show "posix_dirname (dir @ ''/'' @ base) = dir"
    by simp
  have "posix_basename ?path = base"
    unfolding posix_basename_def strip rev_path tw
    using nonempty by simp
  then show "posix_basename (dir @ ''/'' @ base) = base"
    by simp
qed

lemma example_paths:
  "posix_dirname ''/Apps/Foo/Foo'' = ''/Apps/Foo''"
  "posix_basename ''/Apps/Foo/Foo'' = ''Foo''"
  using posix_split [of "''Foo''" "''/Apps/Foo''"] by simp_all

lemma example_build_paths:
  "build_paths ''/Apps/Foo'' ''Foo'' =
     \<lparr> exe_name = ''Foo'', dll_name = ''Foo.dll'', dll_path = ''/Apps/Foo/Foo.dll'',
       icd_path = ''/Apps/Foo/runtimes/osx/native/MoltenVK_icd.json'',
       dyld_path = ''/Apps/Foo'', native_path = ''/Apps/Foo/runtimes/osx/native'' \<rparr>"
  by (simp add: build_paths_def Let_def snprintf_def strncpy_terminated_def MAX_PATH_def)

text \<open>
  C3. For an argument list \<open>a0 # args\<close>, \<open>a0\<close> being the launcher's own invocation name,
  the vector built for \<^verbatim>\<open>execvp\<close> holds \<^verbatim>\<open>"dotnet"\<close>, the module path and \<open>args\<close> in
  their order, then the \<^verbatim>\<open>NULL\<close> terminator at index \<open>length args + 2\<close>; \<^verbatim>\<open>execvp\<close> is
  called with exactly these \<open>length args + 2\<close> strings.
\<close>

theorem argv_forwarded:
  assumes "NSGetExecutablePath p MAX_PATH = Some exe" and "realpath p exe = Some rp"
  shows "build_argv (dll_path (build_paths (dirname p rp) (basename p rp))) (a0 # args) =
           Str ''dotnet'' # Str (dll_path (build_paths (dirname p rp) (basename p rp))) #
             map Str args @ [NULL, Uninit]
       \<and> main p (a0 # args) =
           (if execvp p ''dotnet''
                 (''dotnet'' # dll_path (build_paths (dirname p rp) (basename p rp)) # args)
                 (configure p (build_paths (dirname p rp) (basename p rp)))
            then Replaced ''dotnet''
                   (''dotnet'' # dll_path (build_paths (dirname p rp) (basename p rp)) # args)
                   (configure p (build_paths (dirname p rp) (basename p rp)))
            else Exit 1 [msg_no_exec])"
  using main_started [OF assms, of "a0 # args"] by (simp add: build_argv_Cons Let_def)

theorem argv_forwarded_witness:
  "NSGetExecutablePath (example_platform ''/Apps/Foo/Foo'' [] []) MAX_PATH = Some ''/Apps/Foo/Foo''
   \<and> realpath (example_platform ''/Apps/Foo/Foo'' [] []) ''/Apps/Foo/Foo'' = Some ''/Apps/Foo/Foo''
   \<and> build_argv ''/Apps/Foo/Foo.dll'' [''Foo'', ''a'', ''b''] =
       [Str ''dotnet'', Str ''/Apps/Foo/Foo.dll'', Str ''a'', Str ''b'', NULL, Uninit]
   \<and> main (example_platform ''/Apps/Foo/Foo'' [] []) [''Foo'', ''a'', ''b''] =
       Replaced ''dotnet'' [''dotnet'', ''/Apps/Foo/Foo.dll'', ''a'', ''b'']
         (configure (example_platform ''/Apps/Foo/Foo'' [] []) (build_paths ''/Apps/Foo'' ''Foo''))"
  using argv_forwarded [of "example_platform ''/Apps/Foo/Foo'' [] []" "''/Apps/Foo/Foo''"
      "''/Apps/Foo/Foo''" "''Foo''" "[''a'', ''b'']"]
  by (simp add: example_platform_simps example_paths example_build_paths MAX_PATH_def)

text \<open>
  C7. The launcher of RedHoleGame and the launcher of RedHoleEngine give the same outcome
  on every platform state and argument list: the same exit status and message on each
  failure, the same file, argument vector and environment when the process is replaced.
\<close>

theorem variants_agree: "main_RedHoleGame p argv = main p argv"
  unfolding main_RedHoleGame_def main_def configure_def build_paths_def
      set_icd_variables_def select_icd_path_def add_homebrew_loader_path_def
      set_dyld_library_path_def build_argv_def Let_def
      DYLD_LIBRARY_PATH_def VK_ICD_FILENAMES_def VK_DRIVER_FILES_def brew_icd_def local_icd_def
      msg_no_exe_path_def msg_no_real_path_def msg_no_exec_def paths.simps
  by (rule refl)

subsection \<open>The environment handed to the replacement process\<close>

lemma variable_names_distinct:
  "DYLD_LIBRARY_PATH \<noteq> VK_ICD_FILENAMES" "DYLD_LIBRARY_PATH \<noteq> VK_DRIVER_FILES"
  "VK_ICD_FILENAMES \<noteq> VK_DRIVER_FILES"
  by (simp_all add: DYLD_LIBRARY_PATH_def VK_ICD_FILENAMES_def VK_DRIVER_FILES_def)

lemma set_dyld_library_path_other:
  "name \<noteq> DYLD_LIBRARY_PATH \<Longrightarrow> set_dyld_library_path b e name = e name"
  by (simp add: set_dyld_library_path_def setenv_def getenv_def split: option.splits)

lemma add_homebrew_loader_path_other:
  "name \<noteq> DYLD_LIBRARY_PATH \<Longrightarrow> add_homebrew_loader_path p e name = e name"
  by (simp add: add_homebrew_loader_path_def setenv_def getenv_def split: option.splits)

lemma set_dyld_library_path_value:
  "set_dyld_library_path b e DYLD_LIBRARY_PATH =
     Some (snprintf (MAX_PATH * 2)
       (dyld_path b @ '':'' @ native_path b @
          (case e DYLD_LIBRARY_PATH of None \<Rightarrow> [] | Some v \<Rightarrow> if v = [] then [] else '':'' @ v)))"
  by (simp add: set_dyld_library_path_def setenv_def getenv_def split: option.splits)

lemma add_homebrew_loader_path_value:
  "add_homebrew_loader_path p e DYLD_LIBRARY_PATH =
     (case e DYLD_LIBRARY_PATH of
        None \<Rightarrow> None
      | Some dyld \<Rightarrow>
          Some (if file_exists p ''/opt/homebrew/lib/libvulkan.dylib''
                     \<and> strstr dyld ''/opt/homebrew/lib'' = None
                then snprintf (MAX_PATH * 2) (dyld @ '':/opt/homebrew/lib'')
                else dyld))"
  by (simp add: add_homebrew_loader_path_def setenv_def getenv_def split: option.splits)

lemma configure_other:
  assumes "name \<noteq> DYLD_LIBRARY_PATH" and "name \<noteq> VK_ICD_FILENAMES"
    and "name \<noteq> VK_DRIVER_FILES"
  shows "configure p b name = environ p name"
  using assms
  by (simp add: configure_def set_icd_variables_def setenv_def
      add_homebrew_loader_path_other set_dyld_library_path_other)

lemma configure_icd:
  "configure p b VK_ICD_FILENAMES = Some (select_icd_path p (icd_path b))"
  "configure p b VK_DRIVER_FILES = Some (select_icd_path p (icd_path b))"
  using variable_names_distinct
  by (simp_all add: configure_def set_icd_variables_def setenv_def)

lemma configure_dyld:
  "configure p b DYLD_LIBRARY_PATH =
     add_homebrew_loader_path p (set_dyld_library_path b (environ p)) DYLD_LIBRARY_PATH"
  using variable_names_distinct
  by (simp add: configure_def set_icd_variables_def setenv_def)

lemma main_Replaced:
  assumes "main p argv = Replaced file args e"
  obtains exe rp where "NSGetExecutablePath p MAX_PATH = Some exe" and "realpath p exe = Some rp"
    and "file = ''dotnet''" and "e = configure p (build_paths (dirname p rp) (basename p rp))"
    and "args = (case argv of [] \<Rightarrow> [''dotnet'']
                 | a0 # as \<Rightarrow> ''dotnet'' # dll_path (build_paths (dirname p rp) (basename p rp)) # as)"
  using assms
  by (auto simp add: main_def Let_def read_build_argv split: option.splits if_splits)

text \<open>
  C8. A variable whose name is none of \<^verbatim>\<open>DYLD_LIBRARY_PATH\<close>, \<^verbatim>\<open>VK_ICD_FILENAMES\<close> and
  \<^verbatim>\<open>VK_DRIVER_FILES\<close> has, in the environment the launcher builds and in the one the
  replacement process receives, the value (or the absence) it had when the launcher
  started.
\<close>

theorem other_variables_inherited:
  assumes "name \<noteq> ''DYLD_LIBRARY_PATH''" and "name \<noteq> ''VK_ICD_FILENAMES''"
    and "name \<noteq> ''VK_DRIVER_FILES''"
  shows "configure p b name = environ p name
       \<and> (main p argv = Replaced file args e \<longrightarrow> e name = environ p name)"
proof -
  have frame: "configure p b' name = environ p name" for b'
    using assms
    by (intro configure_other)
       (simp_all add: DYLD_LIBRARY_PATH_def VK_ICD_FILENAMES_def VK_DRIVER_FILES_def)
  have "e name = environ p name" if "main p argv = Replaced file args e"
    using that by (rule main_Replaced) (simp add: frame)
  with frame show ?thesis by simp
qed

theorem other_variables_inherited_witness:
  "''HOME'' \<noteq> ''DYLD_LIBRARY_PATH'' \<and> ''HOME'' \<noteq> ''VK_ICD_FILENAMES''
   \<and> ''HOME'' \<noteq> ''VK_DRIVER_FILES''
   \<and> main (example_platform ''/Apps/Foo/Foo'' [] [(''HOME'', ''/Users/u'')]) [''Foo''] =
       Replaced ''dotnet'' [''dotnet'', ''/Apps/Foo/Foo.dll'']
         (configure (example_platform ''/Apps/Foo/Foo'' [] [(''HOME'', ''/Users/u'')])
            (build_paths ''/Apps/Foo'' ''Foo''))
   \<and> configure (example_platform ''/Apps/Foo/Foo'' [] [(''HOME'', ''/Users/u'')])
         (build_paths ''/Apps/Foo'' ''Foo'') ''HOME'' = Some ''/Users/u''"
proof -
  let ?p = "example_platform ''/Apps/Foo/Foo'' [] [(''HOME'', ''/Users/u'')]"
  have run: "main ?p [''Foo''] =
      Replaced ''dotnet'' [''dotnet'', ''/Apps/Foo/Foo.dll'']
        (configure ?p (build_paths ''/Apps/Foo'' ''Foo''))"
    using main_started [of ?p "''/Apps/Foo/Foo''" "''/Apps/Foo/Foo''" "[''Foo'']"]
    by (simp add: example_platform_simps example_paths example_build_paths MAX_PATH_def)
  have "configure ?p (build_paths ''/Apps/Foo'' ''Foo'') ''HOME'' = environ ?p ''HOME''"
    using other_variables_inherited [of "''HOME''" ?p "build_paths ''/Apps/Foo'' ''Foo''"]
    by simp
  with run show ?thesis
    by (simp add: example_platform_simps)
qed

text \<open>
  C9. Whatever \<^verbatim>\<open>VK_ICD_FILENAMES\<close> and \<^verbatim>\<open>VK_DRIVER_FILES\<close> held (or did not hold) when
  the launcher started, both hold the selected manifest path in the environment the
  replacement process receives: changing their prior values changes nothing in that
  environment.
\<close>

theorem icd_variables_overwritten:
  assumes "NSGetExecutablePath p MAX_PATH = Some exe" and "realpath p exe = Some rp"
    and "main p argv = Replaced file args e"
  shows "e VK_ICD_FILENAMES =
           Some (select_icd_path p (icd_path (build_paths (dirname p rp) (basename p rp))))
       \<and> e VK_DRIVER_FILES =
           Some (select_icd_path p (icd_path (build_paths (dirname p rp) (basename p rp))))
       \<and> configure (p\<lparr>environ := (environ p)(VK_ICD_FILENAMES := u, VK_DRIVER_FILES := w)\<rparr>)
           (build_paths (dirname p rp) (basename p rp)) = e"
proof -
  let ?b = "build_paths (dirname p rp) (basename p rp)"
  let ?q = "p\<lparr>environ := (environ p)(VK_ICD_FILENAMES := u, VK_DRIVER_FILES := w)\<rparr>"
  have e: "e = configure p ?b"
    using assms(3) by (rule main_Replaced) (use assms(1,2) in simp)
  have sel: "select_icd_path ?q icd = select_icd_path p icd" for icd
    by (simp add: select_icd_path_def file_exists_def)
  have "configure ?q ?b name = configure p ?b name" for name
  proof -
    consider "name = VK_ICD_FILENAMES" | "name = VK_DRIVER_FILES" | "name = DYLD_LIBRARY_PATH"
      | "name \<noteq> VK_ICD_FILENAMES" "name \<noteq> VK_DRIVER_FILES" "name \<noteq> DYLD_LIBRARY_PATH"
      by blast
    then show ?thesis
    proof cases
      case 1
      then show ?thesis by (simp add: configure_icd sel)
    next
      case 2
      then show ?thesis by (simp add: configure_icd sel)
    next
      case 3
      then show ?thesis
        using variable_names_distinct
        by (simp add: configure_dyld add_homebrew_loader_path_value
            set_dyld_library_path_value file_exists_def)
    next
      case 4
      then show ?thesis by (simp add: configure_other)
    qed
  qed
  then have "configure ?q ?b = configure p ?b"
    by (rule ext)
  with e show ?thesis
    by (simp add: configure_icd)
qed

theorem icd_variables_overwritten_witness:
  "NSGetExecutablePath (example_platform ''/Apps/Foo/Foo'' [brew_icd]
       [(''VK_ICD_FILENAMES'', ''/my/icd.json'')]) MAX_PATH = Some ''/Apps/Foo/Foo''
   \<and> realpath (example_platform ''/Apps/Foo/Foo'' [brew_icd]
       [(''VK_ICD_FILENAMES'', ''/my/icd.json'')]) ''/Apps/Foo/Foo'' = Some ''/Apps/Foo/Foo''
   \<and> environ (example_platform ''/Apps/Foo/Foo'' [brew_icd]
       [(''VK_ICD_FILENAMES'', ''/my/icd.json'')]) VK_ICD_FILENAMES = Some ''/my/icd.json''
   \<and> main (example_platform ''/Apps/Foo/Foo'' [brew_icd]
       [(''VK_ICD_FILENAMES'', ''/my/icd.json'')]) [''Foo''] =
       Replaced ''dotnet'' [''dotnet'', ''/Apps/Foo/Foo.dll'']
         (configure (example_platform ''/Apps/Foo/Foo'' [brew_icd]
            [(''VK_ICD_FILENAMES'', ''/my/icd.json'')]) (build_paths ''/Apps/Foo'' ''Foo''))
   \<and> configure (example_platform ''/Apps/Foo/Foo'' [brew_icd]
         [(''VK_ICD_FILENAMES'', ''/my/icd.json'')]) (build_paths ''/Apps/Foo'' ''Foo'')
         VK_ICD_FILENAMES = Some ''/opt/homebrew/share/vulkan/icd.d/MoltenVK_icd.json''
   \<and> configure (example_platform ''/Apps/Foo/Foo'' [brew_icd]
         [(''VK_ICD_FILENAMES'', ''/my/icd.json'')]) (build_paths ''/Apps/Foo'' ''Foo'')
         VK_DRIVER_FILES = Some ''/opt/homebrew/share/vulkan/icd.d/MoltenVK_icd.json''"
proof -
  let ?p = "example_platform ''/Apps/Foo/Foo'' [brew_icd] [(''VK_ICD_FILENAMES'', ''/my/icd.json'')]"
  let ?e = "configure ?p (build_paths ''/Apps/Foo'' ''Foo'')"
  have started: "NSGetExecutablePath ?p MAX_PATH = Some ''/Apps/Foo/Foo''"
      "realpath ?p ''/Apps/Foo/Foo'' = Some ''/Apps/Foo/Foo''"
    by (simp_all add: example_platform_simps MAX_PATH_def)
  have run: "main ?p [''Foo''] = Replaced ''dotnet'' [''dotnet'', ''/Apps/Foo/Foo.dll''] ?e"
    using main_started [OF started, of "[''Foo'']"]
    by (simp add: example_platform_simps example_paths example_build_paths)
  have sel: "select_icd_path ?p ''/Apps/Foo/runtimes/osx/native/MoltenVK_icd.json'' =
      ''/opt/homebrew/share/vulkan/icd.d/MoltenVK_icd.json''"
    by (simp add: select_icd_path_def file_exists_def example_platform_simps brew_icd_def
        strncpy_terminated_def MAX_PATH_def)
  show ?thesis
    using icd_variables_overwritten [OF started, of "[''Foo'']" "''dotnet''"
        "[''dotnet'', ''/Apps/Foo/Foo.dll'']" ?e None None] run started sel
    by (simp add: example_platform_simps example_paths example_build_paths VK_ICD_FILENAMES_def)
qed

subsection \<open>Runs on the example platform\<close>

lemma example_run:
  "main (example_platform ''/Apps/Foo/Foo'' files vars) (a0 # args) =
     Replaced ''dotnet'' (''dotnet'' # ''/Apps/Foo/Foo.dll'' # args)
       (configure (example_platform ''/Apps/Foo/Foo'' files vars) (build_paths ''/Apps/Foo'' ''Foo''))"
  using main_started [of "example_platform ''/Apps/Foo/Foo'' files vars" "''/Apps/Foo/Foo''"
      "''/Apps/Foo/Foo''" "a0 # args"]
  by (simp add: example_platform_simps example_paths example_build_paths MAX_PATH_def)

lemma long_dir_length: "length long_dir = 4089"
  by (simp add: long_dir_def)

lemma long_dir_paths:
  "posix_dirname (long_dir @ ''/Foo'') = long_dir"
  "posix_basename (long_dir @ ''/Foo'') = ''Foo''"
proof -
  have "long_dir \<noteq> []" and "last long_dir \<noteq> CHR ''/''"
    by (simp_all add: long_dir_def)
  then show "posix_dirname (long_dir @ ''/Foo'') = long_dir"
    and "posix_basename (long_dir @ ''/Foo'') = ''Foo''"
    using posix_split [of "''Foo''" long_dir] by simp_all
qed

lemma long_dir_build_paths:
  "dll_path (build_paths long_dir ''Foo'') = long_dir @ ''/Foo.d''"
  "icd_path (build_paths long_dir ''Foo'') = long_dir @ ''/runti''"
  by (simp_all add: build_paths_def Let_def snprintf_def strncpy_terminated_def MAX_PATH_def
      long_dir_length)

lemma long_dir_run:
  "main (example_platform (long_dir @ ''/Foo'') files vars) (a0 # args) =
     Replaced ''dotnet'' (''dotnet'' # (long_dir @ ''/Foo.d'') # args)
       (configure (example_platform (long_dir @ ''/Foo'') files vars) (build_paths long_dir ''Foo''))"
  using main_started [of "example_platform (long_dir @ ''/Foo'') files vars" "long_dir @ ''/Foo''"
      "long_dir @ ''/Foo''" "a0 # args"]
  by (simp add: example_platform_simps long_dir_paths long_dir_build_paths MAX_PATH_def
      long_dir_length)

subsection \<open>Failures\<close>

text \<open>
  C6. \<^verbatim>\<open>main\<close> returns in exactly three cases, each with status 1 and one message on
  \<^verbatim>\<open>stderr\<close>: \<^verbatim>\<open>_NSGetExecutablePath\<close> fails; \<^verbatim>\<open>realpath\<close> fails; \<^verbatim>\<open>execvp\<close> returns.
  In every other case the process image is replaced. No call is made a second time.
\<close>

theorem launch_failures:
  "main p argv \<noteq> Undefined
   \<and> (NSGetExecutablePath p MAX_PATH = None \<longrightarrow> main p argv = Exit 1 [msg_no_exe_path])
   \<and> (NSGetExecutablePath p MAX_PATH = Some exe \<and> realpath p exe = None
        \<longrightarrow> main p argv = Exit 1 [msg_no_real_path])
   \<and> (NSGetExecutablePath p MAX_PATH = Some exe \<and> realpath p exe = Some rp
        \<and> \<not> execvp p ''dotnet''
              (case argv of [] \<Rightarrow> [''dotnet'']
               | a0 # as \<Rightarrow> ''dotnet'' # dll_path (build_paths (dirname p rp) (basename p rp)) # as)
              (configure p (build_paths (dirname p rp) (basename p rp)))
        \<longrightarrow> main p argv = Exit 1 [msg_no_exec])
   \<and> (main p argv = Exit status err \<longrightarrow>
        status = 1 \<and>
        (err = [msg_no_exe_path] \<and> NSGetExecutablePath p MAX_PATH = None
         \<or> err = [msg_no_real_path]
             \<and> (\<exists>exe'. NSGetExecutablePath p MAX_PATH = Some exe' \<and> realpath p exe' = None)
         \<or> err = [msg_no_exec]
             \<and> (\<exists>exe' rp'. NSGetExecutablePath p MAX_PATH = Some exe' \<and> realpath p exe' = Some rp'
                  \<and> \<not> execvp p ''dotnet''
                        (case argv of [] \<Rightarrow> [''dotnet'']
                         | a0 # as \<Rightarrow>
                             ''dotnet'' # dll_path (build_paths (dirname p rp') (basename p rp')) # as)
                        (configure p (build_paths (dirname p rp') (basename p rp'))))))"
proof (cases "NSGetExecutablePath p MAX_PATH")
  case None
  then have "main p argv = Exit 1 [msg_no_exe_path]"
    by (simp add: main_def)
  with None show ?thesis by simp
next
  case (Some exe')
  note exe' = this
  show ?thesis
  proof (cases "realpath p exe'")
    case None
    then have "main p argv = Exit 1 [msg_no_real_path]"
      using exe' by (simp add: main_def)
    with exe' None show ?thesis by auto
  next
    case (Some rp')
    show ?thesis
      using main_started [OF exe' Some, of argv] exe' Some
      by (auto simp add: Let_def)
  qed
qed

theorem launch_failures_witness:
  "main (example_platform ''/Apps/Foo/Foo'' [] [] \<lparr>NSGetExecutablePath := \<lambda>n. None\<rparr>) [''Foo'']
     = Exit 1 [''Error: Could not get executable path'' @ [CHR 0x0A]]
   \<and> main (example_platform ''/Apps/Foo/Foo'' [] [] \<lparr>realpath := \<lambda>path. None\<rparr>) [''Foo'']
     = Exit 1 [''Error: Could not resolve path'' @ [CHR 0x0A]]
   \<and> main (example_platform ''/Apps/Foo/Foo'' [] [] \<lparr>execvp := \<lambda>file args e. False\<rparr>) [''Foo'']
     = Exit 1 [''Error: Could not execute dotnet'' @ [CHR 0x0A]]"
proof -
  let ?p = "example_platform ''/Apps/Foo/Foo'' [] []"
  let ?p1 = "?p\<lparr>NSGetExecutablePath := \<lambda>n. None\<rparr>"
  let ?p2 = "?p\<lparr>realpath := \<lambda>path. None\<rparr>"
  let ?p3 = "?p\<lparr>execvp := \<lambda>file args e. False\<rparr>"
  have "NSGetExecutablePath ?p1 MAX_PATH = None"
    by simp
  with launch_failures [of ?p1 "[''Foo'']", THEN conjunct2, THEN conjunct1]
  have first: "main ?p1 [''Foo''] = Exit 1 [msg_no_exe_path]"
    by (rule mp)
  have "NSGetExecutablePath ?p2 MAX_PATH = Some ''/Apps/Foo/Foo''
      \<and> realpath ?p2 ''/Apps/Foo/Foo'' = None"
    by (simp add: example_platform_simps MAX_PATH_def)
  with launch_failures [of ?p2 "[''Foo'']" "''/Apps/Foo/Foo''",
      THEN conjunct2, THEN conjunct2, THEN conjunct1]
  have second: "main ?p2 [''Foo''] = Exit 1 [msg_no_real_path]"
    by (rule mp)
  have "NSGetExecutablePath ?p3 MAX_PATH = Some ''/Apps/Foo/Foo''
      \<and> realpath ?p3 ''/Apps/Foo/Foo'' = Some ''/Apps/Foo/Foo''
      \<and> \<not> execvp ?p3 ''dotnet''
            (case [''Foo''] of [] \<Rightarrow> [''dotnet'']
             | a0 # as \<Rightarrow>
                 ''dotnet'' # dll_path (build_paths (dirname ?p3 ''/Apps/Foo/Foo'')
                                         (basename ?p3 ''/Apps/Foo/Foo'')) # as)
            (configure ?p3 (build_paths (dirname ?p3 ''/Apps/Foo/Foo'')
                              (basename ?p3 ''/Apps/Foo/Foo'')))"
    by (simp add: example_platform_simps MAX_PATH_def)
  with launch_failures [of ?p3 "[''Foo'']" "''/Apps/Foo/Foo''" "''/Apps/Foo/Foo''",
      THEN conjunct2, THEN conjunct2, THEN conjunct2, THEN conjunct1]
  have third: "main ?p3 [''Foo''] = Exit 1 [msg_no_exec]"
    by (rule mp)
  from first second third show ?thesis
    by (simp only: msg_no_exe_path_def msg_no_real_path_def msg_no_exec_def simp_thms)
qed

subsection \<open>Derived paths\<close>

lemma dll_path_fits:
  assumes "length dir + length base + 5 < MAX_PATH"
  shows "dll_path (build_paths dir base) = dir @ ''/'' @ base @ ''.dll''"
  using assms
  by (simp add: build_paths_def Let_def snprintf_def strncpy_terminated_def)

lemma icd_path_fits:
  assumes "length dir + 38 < MAX_PATH"
  shows "icd_path (build_paths dir base) = dir @ ''/runtimes/osx/native/MoltenVK_icd.json''"
  using assms
  by (simp add: build_paths_def Let_def snprintf_def)

lemma select_icd_path_cascade:
  "select_icd_path p icd =
     (if file_exists p icd then icd
      else if file_exists p brew_icd then brew_icd
      else if file_exists p local_icd then local_icd
      else icd)"
  by (simp add: select_icd_path_def strncpy_terminated_def brew_icd_def local_icd_def MAX_PATH_def)

lemma strip_slashes_length: "length (strip_slashes path) \<le> length path"
  using length_dropWhile_le [of "\<lambda>c. c = CHR ''/''" "rev path"]
  by (simp add: strip_slashes_def)

lemma posix_names_bounded:
  assumes "length path < PATH_MAX"
  shows "length (posix_dirname path) < PATH_MAX" and "length (posix_basename path) < PATH_MAX"
proof -
  have one: "1 < PATH_MAX"
    by (simp add: PATH_MAX_def)
  have stripped: "length (strip_slashes path) < PATH_MAX"
    using strip_slashes_length [of path] assms by simp
  have "length (takeWhile (\<lambda>c. c \<noteq> CHR ''/'') (rev (strip_slashes path))) < PATH_MAX"
    using length_takeWhile_le [of "\<lambda>c. c \<noteq> CHR ''/''" "rev (strip_slashes path)"] stripped
    by simp
  then show "length (posix_basename path) < PATH_MAX"
    using one by (simp add: posix_basename_def)
  have "length (dropWhile (\<lambda>c. c \<noteq> CHR ''/'') (rev (strip_slashes path))) < PATH_MAX"
    using length_dropWhile_le [of "\<lambda>c. c \<noteq> CHR ''/''" "rev (strip_slashes path)"] stripped
    by simp
  then have "length (strip_slashes
      (rev (dropWhile (\<lambda>c. c \<noteq> CHR ''/'') (rev (strip_slashes path))))) < PATH_MAX"
    using strip_slashes_length
      [of "rev (dropWhile (\<lambda>c. c \<noteq> CHR ''/'') (rev (strip_slashes path)))"]
    by simp
  then show "length (posix_dirname path) < PATH_MAX"
    using one by (simp add: posix_dirname_def Let_def)
qed

text \<open>
  C4. On macOS, where \<^verbatim>\<open>dirname\<close> and \<^verbatim>\<open>basename\<close> return fewer than \<^verbatim>\<open>PATH_MAX\<close>
  characters, the module path is exactly \<open>D/N.dll\<close>, \<open>D\<close> and \<open>N\<close> being the directory
  and the base name of the resolved path, and it is the second entry of the argument
  vector whatever path \<^verbatim>\<open>_NSGetExecutablePath\<close> reported and whatever the invocation
  name is.
\<close>

theorem module_path:
  assumes "NSGetExecutablePath p MAX_PATH = Some exe" and "realpath p exe = Some rp"
    and "length (dirname p rp) < PATH_MAX" and "length (basename p rp) < PATH_MAX"
  shows "dll_path (build_paths (dirname p rp) (basename p rp)) =
           dirname p rp @ ''/'' @ basename p rp @ ''.dll''
       \<and> main p (a0 # args) =
           (if execvp p ''dotnet''
                 (''dotnet'' # (dirname p rp @ ''/'' @ basename p rp @ ''.dll'') # args)
                 (configure p (build_paths (dirname p rp) (basename p rp)))
            then Replaced ''dotnet''
                   (''dotnet'' # (dirname p rp @ ''/'' @ basename p rp @ ''.dll'') # args)
                   (configure p (build_paths (dirname p rp) (basename p rp)))
            else Exit 1 [msg_no_exec])"
proof -
  have "length (dirname p rp) + length (basename p rp) + 5 < MAX_PATH"
    using assms(3,4) by (simp add: PATH_MAX_def MAX_PATH_def)
  then show ?thesis
    using main_started [OF assms(1,2), of "a0 # args"] dll_path_fits
    by (simp add: Let_def)
qed

theorem module_path_witness:
  "NSGetExecutablePath
     (example_platform ''/usr/local/bin/foo'' [] [] \<lparr>realpath := \<lambda>path. Some ''/Apps/Foo/Foo''\<rparr>)
     MAX_PATH = Some ''/usr/local/bin/foo''
   \<and> length ''/Apps/Foo'' < PATH_MAX \<and> length ''Foo'' < PATH_MAX
   \<and> main
       (example_platform ''/usr/local/bin/foo'' [] [] \<lparr>realpath := \<lambda>path. Some ''/Apps/Foo/Foo''\<rparr>)
       [''foo'', ''a''] =
       Replaced ''dotnet'' [''dotnet'', ''/Apps/Foo/Foo.dll'', ''a'']
         (configure
            (example_platform ''/usr/local/bin/foo'' [] []
               \<lparr>realpath := \<lambda>path. Some ''/Apps/Foo/Foo''\<rparr>)
            (build_paths ''/Apps/Foo'' ''Foo''))"
  using module_path [of "example_platform ''/usr/local/bin/foo'' [] []
        \<lparr>realpath := \<lambda>path. Some ''/Apps/Foo/Foo''\<rparr>" "''/usr/local/bin/foo''"
        "''/Apps/Foo/Foo''" "''foo''" "[''a'']"]
  by (simp add: example_platform_simps example_paths MAX_PATH_def PATH_MAX_def)

subsection \<open>The driver manifest\<close>

text \<open>
  C2. On macOS, where \<^verbatim>\<open>dirname\<close> returns fewer than \<^verbatim>\<open>PATH_MAX\<close> characters, both
  \<^verbatim>\<open>VK_ICD_FILENAMES\<close> and \<^verbatim>\<open>VK_DRIVER_FILES\<close> receive the bundled path
  \<open>D/runtimes/osx/native/MoltenVK_icd.json\<close> if that file exists, otherwise the Homebrew
  path if it exists, otherwise the \<^verbatim>\<open>/usr/local\<close> path if it exists, otherwise the
  bundled path; whichever it is, the launcher goes on to \<^verbatim>\<open>execvp\<close>.
\<close>

theorem icd_cascade:
  fixes p :: platform and rp :: string
  defines "b \<equiv> build_paths (dirname p rp) (basename p rp)"
    and "bundled \<equiv> dirname p rp @ ''/runtimes/osx/native/MoltenVK_icd.json''"
  defines "selected \<equiv>
      (if file_exists p bundled then bundled
       else if file_exists p ''/opt/homebrew/share/vulkan/icd.d/MoltenVK_icd.json''
       then ''/opt/homebrew/share/vulkan/icd.d/MoltenVK_icd.json''
       else if file_exists p ''/usr/local/share/vulkan/icd.d/MoltenVK_icd.json''
       then ''/usr/local/share/vulkan/icd.d/MoltenVK_icd.json''
       else bundled)"
  assumes "NSGetExecutablePath p MAX_PATH = Some exe" and "realpath p exe = Some rp"
    and "length (dirname p rp) < PATH_MAX"
  shows "configure p b VK_ICD_FILENAMES = Some selected
       \<and> configure p b VK_DRIVER_FILES = Some selected
       \<and> (\<exists>args. main p argv =
             (if execvp p ''dotnet'' args (configure p b)
              then Replaced ''dotnet'' args (configure p b) else Exit 1 [msg_no_exec]))"
proof -
  have "length (dirname p rp) + 38 < MAX_PATH"
    using assms(6) by (simp add: PATH_MAX_def MAX_PATH_def)
  then have "icd_path b = bundled"
    unfolding b_def bundled_def by (rule icd_path_fits)
  then have "select_icd_path p (icd_path b) = selected"
    by (simp add: select_icd_path_cascade selected_def brew_icd_def local_icd_def)
  moreover have "\<exists>args. main p argv =
      (if execvp p ''dotnet'' args (configure p b)
       then Replaced ''dotnet'' args (configure p b) else Exit 1 [msg_no_exec])"
    using main_started [OF assms(4,5), of argv] by (auto simp add: Let_def b_def)
  ultimately show ?thesis
    by (simp add: configure_icd)
qed

theorem icd_cascade_witness:
  "NSGetExecutablePath (example_platform ''/Apps/Foo/Foo'' [local_icd] []) MAX_PATH
     = Some ''/Apps/Foo/Foo''
   \<and> realpath (example_platform ''/Apps/Foo/Foo'' [local_icd] []) ''/Apps/Foo/Foo''
     = Some ''/Apps/Foo/Foo''
   \<and> length (dirname (example_platform ''/Apps/Foo/Foo'' [local_icd] []) ''/Apps/Foo/Foo'')
     < PATH_MAX
   \<and> configure (example_platform ''/Apps/Foo/Foo'' [local_icd] [])
       (build_paths ''/Apps/Foo'' ''Foo'') VK_ICD_FILENAMES
     = Some ''/usr/local/share/vulkan/icd.d/MoltenVK_icd.json''
   \<and> configure (example_platform ''/Apps/Foo/Foo'' [local_icd] [])
       (build_paths ''/Apps/Foo'' ''Foo'') VK_DRIVER_FILES
     = Some ''/usr/local/share/vulkan/icd.d/MoltenVK_icd.json''
   \<and> configure (example_platform ''/Apps/Foo/Foo'' [] [])
       (build_paths ''/Apps/Foo'' ''Foo'') VK_ICD_FILENAMES
     = Some ''/Apps/Foo/runtimes/osx/native/MoltenVK_icd.json''"
proof -
  let ?p = "example_platform ''/Apps/Foo/Foo'' [local_icd] []"
  let ?q = "example_platform ''/Apps/Foo/Foo'' [] []"
  have started: "NSGetExecutablePath ?p MAX_PATH = Some ''/Apps/Foo/Foo''"
      "realpath ?p ''/Apps/Foo/Foo'' = Some ''/Apps/Foo/Foo''"
      "length (dirname ?p ''/Apps/Foo/Foo'') < PATH_MAX"
    by (simp_all add: example_platform_simps example_paths MAX_PATH_def PATH_MAX_def)
  have files: "\<not> file_exists ?p ''/Apps/Foo/runtimes/osx/native/MoltenVK_icd.json''"
      "\<not> file_exists ?p ''/opt/homebrew/share/vulkan/icd.d/MoltenVK_icd.json''"
      "file_exists ?p ''/usr/local/share/vulkan/icd.d/MoltenVK_icd.json''"
    by (simp_all add: file_exists_def example_platform_simps local_icd_def)
  have started': "NSGetExecutablePath ?q MAX_PATH = Some ''/Apps/Foo/Foo''"
      "realpath ?q ''/Apps/Foo/Foo'' = Some ''/Apps/Foo/Foo''"
      "length (dirname ?q ''/Apps/Foo/Foo'') < PATH_MAX"
    by (simp_all add: example_platform_simps example_paths MAX_PATH_def PATH_MAX_def)
  have none: "\<not> file_exists ?q path" for path
    by (simp add: file_exists_def example_platform_simps)
  have last_resort: "configure ?q (build_paths ''/Apps/Foo'' ''Foo'') VK_ICD_FILENAMES
      = Some ''/Apps/Foo/runtimes/osx/native/MoltenVK_icd.json''"
    using icd_cascade [OF started', of "[''Foo'']"] none
    by (simp add: example_platform_simps example_paths)
  from icd_cascade [OF started(1,2,3), of "[''Foo'']"] files started last_resort show ?thesis
    by (simp add: example_platform_simps example_paths)
qed

subsection \<open>The library search path\<close>

lemma native_path_fits:
  assumes "length dir + 20 < MAX_PATH"
  shows "dyld_path (build_paths dir base) = dir"
    and "native_path (build_paths dir base) = dir @ ''/runtimes/osx/native''"
  using assms by (simp_all add: build_paths_def Let_def snprintf_def)

text \<open>
  C1 (amended). Let \<open>D/runtimes/osx/native\<close> be shorter than \<^verbatim>\<open>MAX_PATH\<close> and the
  composed value shorter than \<^verbatim>\<open>2 * MAX_PATH\<close>. Then the value the launcher first sets
  for \<^verbatim>\<open>DYLD_LIBRARY_PATH\<close> is \<open>D:D/runtimes/osx/native\<close> when the variable was unset or
  empty, and \<open>D:D/runtimes/osx/native:V\<close> when it held a non-empty \<open>V\<close>; the replacement
  process receives this value unless the Homebrew step applies (the library file exists
  and the value does not mention \<^verbatim>\<open>/opt/homebrew/lib\<close>).
\<close>

theorem dyld_library_path_set:
  fixes p :: platform and rp :: string
  defines "D \<equiv> dirname p rp"
  defines "b \<equiv> build_paths D (basename p rp)"
    and "composed \<equiv>
      (case environ p DYLD_LIBRARY_PATH of
         None \<Rightarrow> D @ '':'' @ D @ ''/runtimes/osx/native''
       | Some V \<Rightarrow>
           if V = [] then D @ '':'' @ D @ ''/runtimes/osx/native''
           else D @ '':'' @ D @ ''/runtimes/osx/native'' @ '':'' @ V)"
  assumes "NSGetExecutablePath p MAX_PATH = Some exe" and "realpath p exe = Some rp"
    and "length D + 20 < MAX_PATH"
    and "length composed < 2 * MAX_PATH"
  shows "set_dyld_library_path b (environ p) DYLD_LIBRARY_PATH = Some composed
       \<and> (\<not> (file_exists p ''/opt/homebrew/lib/libvulkan.dylib''
               \<and> strstr composed ''/opt/homebrew/lib'' = None)
            \<and> main p argv = Replaced file args e
          \<longrightarrow> e DYLD_LIBRARY_PATH = Some composed)"
proof -
  have paths: "dyld_path b = D" "native_path b = D @ ''/runtimes/osx/native''"
    unfolding b_def using assms(6) by (rule native_path_fits)+
  have "dyld_path b @ '':'' @ native_path b @
      (case environ p DYLD_LIBRARY_PATH of None \<Rightarrow> [] | Some v \<Rightarrow> if v = [] then [] else '':'' @ v)
      = composed"
    by (simp add: paths composed_def split: option.splits)
  then have first: "set_dyld_library_path b (environ p) DYLD_LIBRARY_PATH = Some composed"
    using assms(7) by (simp add: set_dyld_library_path_value snprintf_fits)
  have "e DYLD_LIBRARY_PATH = Some composed"
    if skip: "\<not> (file_exists p ''/opt/homebrew/lib/libvulkan.dylib''
        \<and> strstr composed ''/opt/homebrew/lib'' = None)"
      and run: "main p argv = Replaced file args e"
  proof -
    have "e = configure p b"
      using run by (rule main_Replaced) (use assms(4,5) in \<open>simp add: b_def D_def\<close>)
    then show ?thesis
      using skip first by (auto simp add: configure_dyld add_homebrew_loader_path_value)
  qed
  with first show ?thesis by blast
qed

theorem dyld_library_path_set_witness:
  "NSGetExecutablePath
       (example_platform ''/Apps/Foo/Foo'' [] [(''DYLD_LIBRARY_PATH'', ''/x/lib'')]) MAX_PATH
     = Some ''/Apps/Foo/Foo''
   \<and> realpath
       (example_platform ''/Apps/Foo/Foo'' [] [(''DYLD_LIBRARY_PATH'', ''/x/lib'')]) ''/Apps/Foo/Foo''
     = Some ''/Apps/Foo/Foo''
   \<and> \<not> file_exists
       (example_platform ''/Apps/Foo/Foo'' [] [(''DYLD_LIBRARY_PATH'', ''/x/lib'')])
       ''/opt/homebrew/lib/libvulkan.dylib''
   \<and> main
       (example_platform ''/Apps/Foo/Foo'' [] [(''DYLD_LIBRARY_PATH'', ''/x/lib'')]) [''Foo'']
     = Replaced ''dotnet'' [''dotnet'', ''/Apps/Foo/Foo.dll'']
         (configure
            (example_platform ''/Apps/Foo/Foo'' [] [(''DYLD_LIBRARY_PATH'', ''/x/lib'')])
            (build_paths ''/Apps/Foo'' ''Foo''))
   \<and> configure
       (example_platform ''/Apps/Foo/Foo'' [] [(''DYLD_LIBRARY_PATH'', ''/x/lib'')])
       (build_paths ''/Apps/Foo'' ''Foo'') DYLD_LIBRARY_PATH
     = Some ''/Apps/Foo:/Apps/Foo/runtimes/osx/native:/x/lib''"
proof -
  let ?p = "example_platform ''/Apps/Foo/Foo'' [] [(''DYLD_LIBRARY_PATH'', ''/x/lib'')]"
  let ?e = "configure ?p (build_paths ''/Apps/Foo'' ''Foo'')"
  have started: "NSGetExecutablePath ?p MAX_PATH = Some ''/Apps/Foo/Foo''"
      "realpath ?p ''/Apps/Foo/Foo'' = Some ''/Apps/Foo/Foo''"
    by (simp_all add: example_platform_simps MAX_PATH_def)
  have prior: "environ ?p DYLD_LIBRARY_PATH = Some ''/x/lib''"
    by (simp add: example_platform_simps DYLD_LIBRARY_PATH_def)
  have fits: "length (dirname ?p ''/Apps/Foo/Foo'') + 20 < MAX_PATH"
    by (simp add: example_platform_simps example_paths MAX_PATH_def)
  have fits2: "length
      (case environ ?p DYLD_LIBRARY_PATH of
         None \<Rightarrow> dirname ?p ''/Apps/Foo/Foo'' @ '':'' @ dirname ?p ''/Apps/Foo/Foo'' @
           ''/runtimes/osx/native''
       | Some V \<Rightarrow>
           if V = [] then dirname ?p ''/Apps/Foo/Foo'' @ '':'' @ dirname ?p ''/Apps/Foo/Foo'' @
             ''/runtimes/osx/native''
           else dirname ?p ''/Apps/Foo/Foo'' @ '':'' @ dirname ?p ''/Apps/Foo/Foo'' @
             ''/runtimes/osx/native'' @ '':'' @ V) < 2 * MAX_PATH"
    by (simp add: prior example_platform_simps example_paths MAX_PATH_def)
  have absent: "\<not> file_exists ?p ''/opt/homebrew/lib/libvulkan.dylib''"
    by (simp add: file_exists_def example_platform_simps)
  have run: "main ?p [''Foo''] = Replaced ''dotnet'' [''dotnet'', ''/Apps/Foo/Foo.dll''] ?e"
    by (rule example_run)
  from dyld_library_path_set [OF started fits fits2, of "[''Foo'']" "''dotnet''"
      "[''dotnet'', ''/Apps/Foo/Foo.dll'']" ?e] absent run
  have "?e DYLD_LIBRARY_PATH = Some ''/Apps/Foo:/Apps/Foo/runtimes/osx/native:/x/lib''"
    by (simp add: example_platform_simps example_paths DYLD_LIBRARY_PATH_def)
  with started absent run show ?thesis
    by simp
qed

lemma take_long_value: "n \<le> 9000 \<Longrightarrow> take n long_value = replicate n CHR ''a''"
  by (simp add: long_value_def min_def)

text \<open>
  C1 as stated fails: a prior value of 9000 characters is not preserved, the new value
  is cut to 8191 characters.
\<close>

theorem dyld_library_path_truncated:
  "environ (example_platform ''/Apps/Foo/Foo'' [] [(''DYLD_LIBRARY_PATH'', long_value)])
       DYLD_LIBRARY_PATH = Some long_value
   \<and> long_value \<noteq> []
   \<and> main (example_platform ''/Apps/Foo/Foo'' [] [(''DYLD_LIBRARY_PATH'', long_value)]) [''Foo'']
     = Replaced ''dotnet'' [''dotnet'', ''/Apps/Foo/Foo.dll'']
         (configure (example_platform ''/Apps/Foo/Foo'' [] [(''DYLD_LIBRARY_PATH'', long_value)])
            (build_paths ''/Apps/Foo'' ''Foo''))
   \<and> set_dyld_library_path (build_paths ''/Apps/Foo'' ''Foo'')
       (environ (example_platform ''/Apps/Foo/Foo'' [] [(''DYLD_LIBRARY_PATH'', long_value)]))
       DYLD_LIBRARY_PATH
     = Some (''/Apps/Foo:/Apps/Foo/runtimes/osx/native:'' @ replicate 8151 CHR ''a'')
   \<and> configure (example_platform ''/Apps/Foo/Foo'' [] [(''DYLD_LIBRARY_PATH'', long_value)])
       (build_paths ''/Apps/Foo'' ''Foo'') DYLD_LIBRARY_PATH
     = Some (''/Apps/Foo:/Apps/Foo/runtimes/osx/native:'' @ replicate 8151 CHR ''a'')
   \<and> ''/Apps/Foo:/Apps/Foo/runtimes/osx/native:'' @ replicate 8151 CHR ''a''
     \<noteq> ''/Apps/Foo'' @ '':'' @ ''/Apps/Foo/runtimes/osx/native'' @ '':'' @ long_value"
proof -
  let ?p = "example_platform ''/Apps/Foo/Foo'' [] [(''DYLD_LIBRARY_PATH'', long_value)]"
  let ?b = "build_paths ''/Apps/Foo'' ''Foo''"
  let ?cut = "''/Apps/Foo:/Apps/Foo/runtimes/osx/native:'' @ replicate 8151 CHR ''a''"
  have prior: "environ ?p DYLD_LIBRARY_PATH = Some long_value"
    by (simp add: example_platform_simps DYLD_LIBRARY_PATH_def)
  have nonempty: "long_value \<noteq> []"
    by (simp add: long_value_def)
  have first: "set_dyld_library_path ?b (environ ?p) DYLD_LIBRARY_PATH = Some ?cut"
    using nonempty
    by (simp add: set_dyld_library_path_value prior example_build_paths snprintf_def
        MAX_PATH_def take_long_value)
  have absent: "\<not> file_exists ?p ''/opt/homebrew/lib/libvulkan.dylib''"
    by (simp add: file_exists_def example_platform_simps)
  have final: "configure ?p ?b DYLD_LIBRARY_PATH = Some ?cut"
    using first absent by (simp add: configure_dyld add_homebrew_loader_path_value)
  have differ: "?cut \<noteq> ''/Apps/Foo'' @ '':'' @ ''/Apps/Foo/runtimes/osx/native'' @ '':'' @ long_value"
  proof
    assume "?cut = ''/Apps/Foo'' @ '':'' @ ''/Apps/Foo/runtimes/osx/native'' @ '':'' @ long_value"
    then have "length ?cut =
        length (''/Apps/Foo'' @ '':'' @ ''/Apps/Foo/runtimes/osx/native'' @ '':'' @ long_value)"
      by (rule arg_cong)
    then show False
      by (simp add: long_value_def)
  qed
  from prior nonempty first final differ show ?thesis
    by (simp only: example_run simp_thms)
qed

subsection \<open>The Homebrew loader directory\<close>

lemma strstr_found: "strstr (xs @ needle @ ys) needle \<noteq> None"
proof (induction xs)
  case Nil
  have "prefix needle (needle @ ys)"
    by simp
  then show ?case
    by (cases "needle @ ys") simp_all
next
  case (Cons x xs)
  then show ?case by simp
qed

lemma strstr_Some_set: "strstr haystack needle = Some r \<Longrightarrow> set needle \<subseteq> set haystack"
proof (induction haystack)
  case Nil
  then show ?case by (simp split: if_splits)
next
  case (Cons c cs)
  show ?case
  proof (cases "prefix needle (c # cs)")
    case True
    then show ?thesis by (rule set_mono_prefix)
  next
    case False
    with Cons show ?thesis by auto
  qed
qed

lemma snprintf_full: "length r = n - 1 \<Longrightarrow> snprintf n (r @ s) = r"
  by (simp add: snprintf_def)

lemma homebrew_step_idempotent:
  "add_homebrew_loader_path p (add_homebrew_loader_path p e) = add_homebrew_loader_path p e"
proof (cases "file_exists p ''/opt/homebrew/lib/libvulkan.dylib''")
  case False
  then show ?thesis by (simp add: add_homebrew_loader_path_def)
next
  case lib: True
  show ?thesis
  proof (cases "e DYLD_LIBRARY_PATH")
    case None
    then show ?thesis by (simp add: add_homebrew_loader_path_def getenv_def)
  next
    case (Some dyld)
    show ?thesis
    proof (cases "strstr dyld ''/opt/homebrew/lib'' = None")
      case False
      then show ?thesis
        using lib Some by (auto simp add: add_homebrew_loader_path_def getenv_def)
    next
      case True
      let ?r = "snprintf (MAX_PATH * 2) (dyld @ '':/opt/homebrew/lib'')"
      have once: "add_homebrew_loader_path p e = e(DYLD_LIBRARY_PATH \<mapsto> ?r)"
        using lib Some True by (simp add: add_homebrew_loader_path_def getenv_def setenv_def)
      show ?thesis
      proof (cases "strstr ?r ''/opt/homebrew/lib'' = None")
        case False
        then have "add_homebrew_loader_path p (e(DYLD_LIBRARY_PATH \<mapsto> ?r))
            = e(DYLD_LIBRARY_PATH \<mapsto> ?r)"
          using lib by (auto simp add: add_homebrew_loader_path_def getenv_def)
        then show ?thesis
          by (simp only: once)
      next
        case cut: True
        have "strstr ((dyld @ '':'') @ ''/opt/homebrew/lib'' @ []) ''/opt/homebrew/lib'' \<noteq> None"
          by (rule strstr_found)
        with cut have "?r \<noteq> dyld @ '':/opt/homebrew/lib''"
          by auto
        then have "length ?r = MAX_PATH * 2 - 1"
          by (auto simp add: snprintf_def min_def)
        then have "snprintf (MAX_PATH * 2) (?r @ '':/opt/homebrew/lib'') = ?r"
          by (rule snprintf_full)
        then have "add_homebrew_loader_path p (e(DYLD_LIBRARY_PATH \<mapsto> ?r))
            = e(DYLD_LIBRARY_PATH \<mapsto> ?r)"
          using lib cut by (simp add: add_homebrew_loader_path_def getenv_def setenv_def)
        then show ?thesis
          by (simp only: once)
      qed
    qed
  qed
qed

lemma strstr_None_iff: "strstr haystack needle = None \<longleftrightarrow> \<not> sublist needle haystack"
proof
  assume none: "strstr haystack needle = None"
  show "\<not> sublist needle haystack"
  proof
    assume "sublist needle haystack"
    then obtain ps ss where "haystack = ps @ needle @ ss"
      by (auto simp add: sublist_def)
    then have "strstr haystack needle \<noteq> None"
      by (simp only: strstr_found not_False_eq_True)
    with none show False by simp
  qed
next
  have found: "sublist needle h" if "strstr h needle = Some r" for h r
    using that
  proof (induction h)
    case Nil
    then show ?case by (simp split: if_splits)
  next
    case (Cons c cs)
    then show ?case
      by (auto simp add: sublist_Cons_right split: if_splits)
  qed
  assume "\<not> sublist needle haystack"
  with found show "strstr haystack needle = None"
    by (cases "strstr haystack needle") auto
qed

lemma homebrew_step_after_icd:
  "add_homebrew_loader_path p (set_icd_variables icd e) =
     set_icd_variables icd (add_homebrew_loader_path p e)"
proof -
  have twist: "(setenv (setenv e' VK_ICD_FILENAMES icd) VK_DRIVER_FILES icd)
        (DYLD_LIBRARY_PATH \<mapsto> v) =
      setenv (setenv (e'(DYLD_LIBRARY_PATH \<mapsto> v)) VK_ICD_FILENAMES icd) VK_DRIVER_FILES icd"
    for e' v
    using variable_names_distinct by (auto simp add: setenv_def fun_upd_def)
  have same: "set_icd_variables icd e DYLD_LIBRARY_PATH = e DYLD_LIBRARY_PATH"
    using variable_names_distinct by (simp add: set_icd_variables_def setenv_def)
  show ?thesis
  proof (cases "e DYLD_LIBRARY_PATH")
    case None
    with same show ?thesis
      by (simp add: add_homebrew_loader_path_def getenv_def)
  next
    case (Some dyld)
    with same twist [of e] show ?thesis
      by (simp add: add_homebrew_loader_path_def getenv_def set_icd_variables_def)
         (simp add: setenv_def)
  qed
qed

lemma configure_homebrew_again: "add_homebrew_loader_path p (configure p b) = configure p b"
  by (simp add: configure_def homebrew_step_after_icd homebrew_step_idempotent)

text \<open>
  C5 (amended). Let \<open>just_set\<close> be the search path the launcher has just set. If
  \<^verbatim>\<open>/opt/homebrew/lib/libvulkan.dylib\<close> exists and the characters \<^verbatim>\<open>/opt/homebrew/lib\<close>
  occur nowhere in \<open>just_set\<close>, the replacement process receives \<open>just_set\<close> followed by
  \<^verbatim>\<open>:/opt/homebrew/lib\<close>, cut to \<^verbatim>\<open>2 * MAX_PATH - 1\<close> characters; this is the whole of it
  when \<open>just_set\<close> and the 18 characters added are shorter than \<^verbatim>\<open>2 * MAX_PATH\<close>.
  Otherwise it receives \<open>just_set\<close>. Running the step again, on the resulting
  environment or on any other, changes nothing.
\<close>

theorem homebrew_appended_once:
  fixes p :: platform and rp :: string
  defines "b \<equiv> build_paths (dirname p rp) (basename p rp)"
  assumes "set_dyld_library_path b (environ p) DYLD_LIBRARY_PATH = Some just_set"
  shows "configure p b DYLD_LIBRARY_PATH =
           Some (if file_exists p ''/opt/homebrew/lib/libvulkan.dylib''
                      \<and> \<not> sublist ''/opt/homebrew/lib'' just_set
                 then snprintf (MAX_PATH * 2) (just_set @ '':/opt/homebrew/lib'')
                 else just_set)
       \<and> (file_exists p ''/opt/homebrew/lib/libvulkan.dylib''
            \<and> \<not> sublist ''/opt/homebrew/lib'' just_set
            \<and> length just_set + 18 < 2 * MAX_PATH
          \<longrightarrow> configure p b DYLD_LIBRARY_PATH = Some (just_set @ '':/opt/homebrew/lib''))
       \<and> (NSGetExecutablePath p MAX_PATH = Some exe \<and> realpath p exe = Some rp
            \<and> main p argv = Replaced file args e
          \<longrightarrow> e DYLD_LIBRARY_PATH =
                Some (if file_exists p ''/opt/homebrew/lib/libvulkan.dylib''
                           \<and> \<not> sublist ''/opt/homebrew/lib'' just_set
                      then snprintf (MAX_PATH * 2) (just_set @ '':/opt/homebrew/lib'')
                      else just_set))
       \<and> add_homebrew_loader_path p (configure p b) = configure p b
       \<and> add_homebrew_loader_path p (add_homebrew_loader_path p e0)
           = add_homebrew_loader_path p e0"
proof -
  let ?final = "if file_exists p ''/opt/homebrew/lib/libvulkan.dylib''
        \<and> \<not> sublist ''/opt/homebrew/lib'' just_set
      then snprintf (MAX_PATH * 2) (just_set @ '':/opt/homebrew/lib'') else just_set"
  have final: "configure p b DYLD_LIBRARY_PATH = Some ?final"
    using assms(2)
    by (simp add: configure_dyld add_homebrew_loader_path_value strstr_None_iff)
  have whole: "file_exists p ''/opt/homebrew/lib/libvulkan.dylib''
        \<and> \<not> sublist ''/opt/homebrew/lib'' just_set
        \<and> length just_set + 18 < 2 * MAX_PATH
      \<longrightarrow> configure p b DYLD_LIBRARY_PATH = Some (just_set @ '':/opt/homebrew/lib'')"
    using final by (simp add: snprintf_fits)
  have passed: "NSGetExecutablePath p MAX_PATH = Some exe \<and> realpath p exe = Some rp
        \<and> main p argv = Replaced file args e
      \<longrightarrow> e DYLD_LIBRARY_PATH = Some ?final"
  proof (intro impI, elim conjE)
    assume started: "NSGetExecutablePath p MAX_PATH = Some exe" "realpath p exe = Some rp"
      and run: "main p argv = Replaced file args e"
    have "e = configure p b"
      using run by (rule main_Replaced) (use started in \<open>simp add: b_def\<close>)
    with final show "e DYLD_LIBRARY_PATH = Some ?final" by simp
  qed
  show ?thesis
    by (intro conjI final whole passed configure_homebrew_again homebrew_step_idempotent)
qed

theorem homebrew_appended_once_witness:
  "file_exists (example_platform ''/Apps/Foo/Foo'' [''/opt/homebrew/lib/libvulkan.dylib''] [])
       ''/opt/homebrew/lib/libvulkan.dylib''
   \<and> set_dyld_library_path (build_paths ''/Apps/Foo'' ''Foo'')
       (environ (example_platform ''/Apps/Foo/Foo'' [''/opt/homebrew/lib/libvulkan.dylib''] []))
       DYLD_LIBRARY_PATH
     = Some ''/Apps/Foo:/Apps/Foo/runtimes/osx/native''
   \<and> \<not> sublist ''/opt/homebrew/lib'' ''/Apps/Foo:/Apps/Foo/runtimes/osx/native''
   \<and> length ''/Apps/Foo:/Apps/Foo/runtimes/osx/native'' + 18 < 2 * MAX_PATH
   \<and> main (example_platform ''/Apps/Foo/Foo'' [''/opt/homebrew/lib/libvulkan.dylib''] []) [''Foo'']
     = Replaced ''dotnet'' [''dotnet'', ''/Apps/Foo/Foo.dll'']
         (configure (example_platform ''/Apps/Foo/Foo'' [''/opt/homebrew/lib/libvulkan.dylib''] [])
            (build_paths ''/Apps/Foo'' ''Foo''))
   \<and> configure (example_platform ''/Apps/Foo/Foo'' [''/opt/homebrew/lib/libvulkan.dylib''] [])
       (build_paths ''/Apps/Foo'' ''Foo'') DYLD_LIBRARY_PATH
     = Some ''/Apps/Foo:/Apps/Foo/runtimes/osx/native:/opt/homebrew/lib''
   \<and> add_homebrew_loader_path
       (example_platform ''/Apps/Foo/Foo'' [''/opt/homebrew/lib/libvulkan.dylib''] [])
       (configure (example_platform ''/Apps/Foo/Foo'' [''/opt/homebrew/lib/libvulkan.dylib''] [])
          (build_paths ''/Apps/Foo'' ''Foo''))
     = configure (example_platform ''/Apps/Foo/Foo'' [''/opt/homebrew/lib/libvulkan.dylib''] [])
         (build_paths ''/Apps/Foo'' ''Foo'')"
proof -
  let ?p = "example_platform ''/Apps/Foo/Foo'' [''/opt/homebrew/lib/libvulkan.dylib''] []"
  let ?b = "build_paths ''/Apps/Foo'' ''Foo''"
  let ?w = "''/Apps/Foo:/Apps/Foo/runtimes/osx/native''"
  have lib: "file_exists ?p ''/opt/homebrew/lib/libvulkan.dylib''"
    by (simp add: file_exists_def example_platform_simps)
  have names: "dirname ?p ''/Apps/Foo/Foo'' = ''/Apps/Foo''"
      "basename ?p ''/Apps/Foo/Foo'' = ''Foo''"
    by (simp_all add: example_platform_simps example_paths)
  have just_set: "set_dyld_library_path ?b (environ ?p) DYLD_LIBRARY_PATH = Some ?w"
    by (simp add: set_dyld_library_path_value example_build_paths example_platform_simps
        snprintf_def MAX_PATH_def)
  have no_mention: "\<not> sublist ''/opt/homebrew/lib'' ?w"
    unfolding strstr_None_iff [symmetric] by simp
  have short: "length ?w + 18 < 2 * MAX_PATH"
    by (simp add: MAX_PATH_def)
  note step = homebrew_appended_once [of ?p "''/Apps/Foo/Foo''" ?w, unfolded names, OF just_set]
  from step [THEN conjunct2, THEN conjunct1] lib no_mention short
  have appended: "configure ?p ?b DYLD_LIBRARY_PATH = Some (?w @ '':/opt/homebrew/lib'')"
    by blast
  from step [THEN conjunct2, THEN conjunct2, THEN conjunct2, THEN conjunct1]
  have again: "add_homebrew_loader_path ?p (configure ?p ?b) = configure ?p ?b" .
  from lib just_set no_mention short appended again show ?thesis
    by (simp add: example_run)
qed

text \<open>
  C5 as stated fails: with \<^verbatim>\<open>DYLD_LIBRARY_PATH=/x/opt/homebrew/libexec\<close> the library file
  exists, the directory \<^verbatim>\<open>/opt/homebrew/lib\<close> is not among the directories of the search
  path just set, there is room for it, and yet nothing is appended.
\<close>

theorem homebrew_directory_absent:
  "file_exists
       (example_platform ''/Apps/Foo/Foo'' [''/opt/homebrew/lib/libvulkan.dylib'']
          [(''DYLD_LIBRARY_PATH'', ''/x/opt/homebrew/libexec'')])
       ''/opt/homebrew/lib/libvulkan.dylib''
   \<and> set_dyld_library_path (build_paths ''/Apps/Foo'' ''Foo'')
       (environ
          (example_platform ''/Apps/Foo/Foo'' [''/opt/homebrew/lib/libvulkan.dylib'']
             [(''DYLD_LIBRARY_PATH'', ''/x/opt/homebrew/libexec'')]))
       DYLD_LIBRARY_PATH
     = Some ''/Apps/Foo:/Apps/Foo/runtimes/osx/native:/x/opt/homebrew/libexec''
   \<and> search_path_entries ''/Apps/Foo:/Apps/Foo/runtimes/osx/native:/x/opt/homebrew/libexec''
     = [''/Apps/Foo'', ''/Apps/Foo/runtimes/osx/native'', ''/x/opt/homebrew/libexec'']
   \<and> ''/opt/homebrew/lib''
     \<notin> set (search_path_entries
         ''/Apps/Foo:/Apps/Foo/runtimes/osx/native:/x/opt/homebrew/libexec'')
   \<and> length ''/Apps/Foo:/Apps/Foo/runtimes/osx/native:/x/opt/homebrew/libexec'' + 18
     < 2 * MAX_PATH
   \<and> main
       (example_platform ''/Apps/Foo/Foo'' [''/opt/homebrew/lib/libvulkan.dylib'']
          [(''DYLD_LIBRARY_PATH'', ''/x/opt/homebrew/libexec'')]) [''Foo'']
     = Replaced ''dotnet'' [''dotnet'', ''/Apps/Foo/Foo.dll'']
         (configure
            (example_platform ''/Apps/Foo/Foo'' [''/opt/homebrew/lib/libvulkan.dylib'']
               [(''DYLD_LIBRARY_PATH'', ''/x/opt/homebrew/libexec'')])
            (build_paths ''/Apps/Foo'' ''Foo''))
   \<and> configure
       (example_platform ''/Apps/Foo/Foo'' [''/opt/homebrew/lib/libvulkan.dylib'']
          [(''DYLD_LIBRARY_PATH'', ''/x/opt/homebrew/libexec'')])
       (build_paths ''/Apps/Foo'' ''Foo'') DYLD_LIBRARY_PATH
     = Some ''/Apps/Foo:/Apps/Foo/runtimes/osx/native:/x/opt/homebrew/libexec''
   \<and> ''/Apps/Foo:/Apps/Foo/runtimes/osx/native:/x/opt/homebrew/libexec''
     \<noteq> ''/Apps/Foo:/Apps/Foo/runtimes/osx/native:/x/opt/homebrew/libexec''
         @ '':/opt/homebrew/lib''"
proof -
  let ?p = "example_platform ''/Apps/Foo/Foo'' [''/opt/homebrew/lib/libvulkan.dylib'']
      [(''DYLD_LIBRARY_PATH'', ''/x/opt/homebrew/libexec'')]"
  let ?b = "build_paths ''/Apps/Foo'' ''Foo''"
  let ?w = "''/Apps/Foo:/Apps/Foo/runtimes/osx/native:/x/opt/homebrew/libexec''"
  have lib: "file_exists ?p ''/opt/homebrew/lib/libvulkan.dylib''"
    by (simp add: file_exists_def example_platform_simps)
  have prior: "environ ?p DYLD_LIBRARY_PATH = Some ''/x/opt/homebrew/libexec''"
    by (simp add: example_platform_simps DYLD_LIBRARY_PATH_def)
  have first: "set_dyld_library_path ?b (environ ?p) DYLD_LIBRARY_PATH = Some ?w"
    by (simp add: set_dyld_library_path_value prior example_build_paths snprintf_def
        MAX_PATH_def)
  have entries: "search_path_entries ?w =
      [''/Apps/Foo'', ''/Apps/Foo/runtimes/osx/native'', ''/x/opt/homebrew/libexec'']"
    by simp
  have found: "strstr ?w ''/opt/homebrew/lib'' = Some ''/opt/homebrew/libexec''"
    by simp
  have final: "configure ?p ?b DYLD_LIBRARY_PATH = Some ?w"
    using first found
    by (simp only: configure_dyld add_homebrew_loader_path_value option.simps if_False simp_thms)
  have room: "length ?w + 18 < 2 * MAX_PATH"
    by (simp add: MAX_PATH_def)
  from lib first entries final room show ?thesis
    by (simp add: example_run)
qed

text \<open>
  Nor is anything appended when the search path just set already has
  \<^verbatim>\<open>2 * MAX_PATH - 1\<close> characters.
\<close>

theorem homebrew_append_truncated:
  "file_exists
       (example_platform ''/Apps/Foo/Foo'' [''/opt/homebrew/lib/libvulkan.dylib'']
          [(''DYLD_LIBRARY_PATH'', long_value)])
       ''/opt/homebrew/lib/libvulkan.dylib''
   \<and> set_dyld_library_path (build_paths ''/Apps/Foo'' ''Foo'')
       (environ
          (example_platform ''/Apps/Foo/Foo'' [''/opt/homebrew/lib/libvulkan.dylib'']
             [(''DYLD_LIBRARY_PATH'', long_value)]))
       DYLD_LIBRARY_PATH
     = Some (''/Apps/Foo:/Apps/Foo/runtimes/osx/native:'' @ replicate 8151 CHR ''a'')
   \<and> strstr (''/Apps/Foo:/Apps/Foo/runtimes/osx/native:'' @ replicate 8151 CHR ''a'')
       ''/opt/homebrew/lib'' = None
   \<and> main
       (example_platform ''/Apps/Foo/Foo'' [''/opt/homebrew/lib/libvulkan.dylib'']
          [(''DYLD_LIBRARY_PATH'', long_value)]) [''Foo'']
     = Replaced ''dotnet'' [''dotnet'', ''/Apps/Foo/Foo.dll'']
         (configure
            (example_platform ''/Apps/Foo/Foo'' [''/opt/homebrew/lib/libvulkan.dylib'']
               [(''DYLD_LIBRARY_PATH'', long_value)])
            (build_paths ''/Apps/Foo'' ''Foo''))
   \<and> configure
       (example_platform ''/Apps/Foo/Foo'' [''/opt/homebrew/lib/libvulkan.dylib'']
          [(''DYLD_LIBRARY_PATH'', long_value)])
       (build_paths ''/Apps/Foo'' ''Foo'') DYLD_LIBRARY_PATH
     = Some (''/Apps/Foo:/Apps/Foo/runtimes/osx/native:'' @ replicate 8151 CHR ''a'')
   \<and> ''/Apps/Foo:/Apps/Foo/runtimes/osx/native:'' @ replicate 8151 CHR ''a''
     \<noteq> (''/Apps/Foo:/Apps/Foo/runtimes/osx/native:'' @ replicate 8151 CHR ''a'')
         @ '':/opt/homebrew/lib''"
proof -
  let ?p = "example_platform ''/Apps/Foo/Foo'' [''/opt/homebrew/lib/libvulkan.dylib'']
      [(''DYLD_LIBRARY_PATH'', long_value)]"
  let ?b = "build_paths ''/Apps/Foo'' ''Foo''"
  let ?cut = "''/Apps/Foo:/Apps/Foo/runtimes/osx/native:'' @ replicate 8151 CHR ''a''"
  have lib: "file_exists ?p ''/opt/homebrew/lib/libvulkan.dylib''"
    by (simp add: file_exists_def example_platform_simps)
  have prior: "environ ?p DYLD_LIBRARY_PATH = Some long_value"
    by (simp add: example_platform_simps DYLD_LIBRARY_PATH_def)
  have nonempty: "long_value \<noteq> []"
    by (simp add: long_value_def)
  have first: "set_dyld_library_path ?b (environ ?p) DYLD_LIBRARY_PATH = Some ?cut"
    using nonempty
    by (simp add: set_dyld_library_path_value prior example_build_paths snprintf_def
        MAX_PATH_def take_long_value)
  have no_mention: "strstr ?cut ''/opt/homebrew/lib'' = None"
  proof (rule ccontr)
    assume "strstr ?cut ''/opt/homebrew/lib'' \<noteq> None"
    then obtain r where "strstr ?cut ''/opt/homebrew/lib'' = Some r"
      by blast
    then have "set ''/opt/homebrew/lib'' \<subseteq> set ?cut"
      by (rule strstr_Some_set)
    then have "CHR ''h'' \<in> set ?cut"
      by auto
    then show False
      by simp
  qed
  have "snprintf (MAX_PATH * 2) (?cut @ '':/opt/homebrew/lib'') = ?cut"
    by (rule snprintf_full) (simp add: MAX_PATH_def)
  then have final: "configure ?p ?b DYLD_LIBRARY_PATH = Some ?cut"
    using first lib no_mention
    by (simp only: configure_dyld add_homebrew_loader_path_value option.simps if_True simp_thms)
  have differ: "?cut \<noteq> ?cut @ '':/opt/homebrew/lib''"
    by simp
  from lib first no_mention final differ show ?thesis
    by (simp only: example_run simp_thms)
qed

subsection \<open>Buffers\<close>

lemma c_str_terminated: "NUL \<notin> set s \<Longrightarrow> c_str (s @ NUL # rest) = s"
  unfolding c_str_def by (subst takeWhile_append2) auto

lemma snprintf_bytes_refines:
  assumes "NUL \<notin> set text" and "0 < n" and "n \<le> length buf"
  shows "length (snprintf_bytes buf n text) = length buf"
    and "c_str (snprintf_bytes buf n text) = snprintf n text"
    and "snprintf_bytes buf n text ! length (snprintf n text) = NUL"
proof -
  let ?s = "take (n - 1) text"
  have bytes: "snprintf_bytes buf n text = ?s @ NUL # drop (length ?s + 1) buf"
    using assms(2) by (simp add: snprintf_bytes_def Let_def)
  have "length ?s + 1 \<le> length buf"
    using assms(2,3) by simp
  then show "length (snprintf_bytes buf n text) = length buf"
    unfolding bytes by simp
  have "NUL \<notin> set ?s"
    using assms(1) by (meson in_set_takeD)
  then show "c_str (snprintf_bytes buf n text) = snprintf n text"
    unfolding bytes snprintf_def by (rule c_str_terminated)
  show "snprintf_bytes buf n text ! length (snprintf n text) = NUL"
    unfolding bytes snprintf_def by (simp add: nth_append)
qed

lemma strncpy_bytes_refines:
  assumes "NUL \<notin> set src" and "length dst = n + 1"
  shows "length ((strncpy_bytes dst src n)[n := NUL]) = length dst"
    and "c_str ((strncpy_bytes dst src n)[n := NUL]) = strncpy_terminated n src"
proof -
  let ?copied = "take n (src @ replicate n NUL)"
  have len: "length ?copied = n"
    by simp
  have "n < length dst" and "drop (Suc n) dst = []"
    using assms(2) by simp_all
  then have tail: "drop n dst = [dst ! n]"
    using Cons_nth_drop_Suc [of n dst] by simp
  have bytes: "(strncpy_bytes dst src n)[n := NUL] = ?copied @ [NUL]"
    unfolding strncpy_bytes_def tail using len by (metis list_update_length)
  show "length ((strncpy_bytes dst src n)[n := NUL]) = length dst"
    unfolding bytes using assms(2) by simp
  have "c_str (?copied @ [NUL]) = take n src"
  proof (cases "n \<le> length src")
    case True
    then have "?copied = take n src"
      by simp
    moreover have "NUL \<notin> set (take n src)"
      using assms(1) by (meson in_set_takeD)
    ultimately show ?thesis
      by (simp add: c_str_terminated)
  next
    case False
    then have "?copied @ [NUL] = src @ NUL # replicate (n - length src) NUL"
      by (simp add: replicate_append_same)
    then show ?thesis
      using assms(1) False by (simp add: c_str_terminated)
  qed
  then show "c_str ((strncpy_bytes dst src n)[n := NUL]) = strncpy_terminated n src"
    unfolding bytes strncpy_terminated_def .
qed

lemma build_paths_bounded:
  "length (exe_name (build_paths dir base)) < MAX_PATH"
  "length (dll_name (build_paths dir base)) < MAX_PATH"
  "length (dll_path (build_paths dir base)) < MAX_PATH"
  "length (icd_path (build_paths dir base)) < MAX_PATH"
  "length (dyld_path (build_paths dir base)) < MAX_PATH"
  "length (native_path (build_paths dir base)) < MAX_PATH"
proof -
  have pos: "0 < MAX_PATH"
    by (simp add: MAX_PATH_def)
  show "length (exe_name (build_paths dir base)) < MAX_PATH"
    by (simp add: build_paths_def Let_def strncpy_terminated_def MAX_PATH_def)
  show "length (dll_name (build_paths dir base)) < MAX_PATH"
    and "length (dll_path (build_paths dir base)) < MAX_PATH"
    and "length (icd_path (build_paths dir base)) < MAX_PATH"
    and "length (dyld_path (build_paths dir base)) < MAX_PATH"
    and "length (native_path (build_paths dir base)) < MAX_PATH"
    by (simp_all add: build_paths_def Let_def snprintf_length [OF pos])
qed

lemma take_take_append: "take n (take n xs @ ys) = take n (xs @ ys)"
  by (cases "n \<le> length xs") simp_all

lemma build_paths_cut:
  "exe_name (build_paths dir base) = take (MAX_PATH - 1) base"
  "dll_name (build_paths dir base) = take (MAX_PATH - 1) (base @ ''.dll'')"
  "dll_path (build_paths dir base) = take (MAX_PATH - 1) (dir @ ''/'' @ base @ ''.dll'')"
  "icd_path (build_paths dir base) =
     take (MAX_PATH - 1) (dir @ ''/runtimes/osx/native/MoltenVK_icd.json'')"
  "dyld_path (build_paths dir base) = take (MAX_PATH - 1) dir"
  "native_path (build_paths dir base) = take (MAX_PATH - 1) (dir @ ''/runtimes/osx/native'')"
proof -
  show "exe_name (build_paths dir base) = take (MAX_PATH - 1) base"
    by (simp add: build_paths_def Let_def strncpy_terminated_def)
  have "dll_name (build_paths dir base) =
      take (MAX_PATH - 1) (take (MAX_PATH - 1) base @ ''.dll'')"
    by (simp only: build_paths_def Let_def strncpy_terminated_def snprintf_def paths.simps)
  then show name: "dll_name (build_paths dir base) = take (MAX_PATH - 1) (base @ ''.dll'')"
    by (simp only: take_take_append)
  have "dll_path (build_paths dir base) =
      snprintf MAX_PATH ((dir @ ''/'') @ snprintf MAX_PATH (base @ ''.dll''))"
    using name by (simp add: build_paths_def Let_def snprintf_def)
  also have "\<dots> = snprintf MAX_PATH ((dir @ ''/'') @ base @ ''.dll'')"
    by (rule snprintf_snprintf_append)
  finally show "dll_path (build_paths dir base) = take (MAX_PATH - 1) (dir @ ''/'' @ base @ ''.dll'')"
    by (simp add: snprintf_def)
  show "icd_path (build_paths dir base) =
      take (MAX_PATH - 1) (dir @ ''/runtimes/osx/native/MoltenVK_icd.json'')"
    and "dyld_path (build_paths dir base) = take (MAX_PATH - 1) dir"
    and "native_path (build_paths dir base) = take (MAX_PATH - 1) (dir @ ''/runtimes/osx/native'')"
    by (simp_all add: build_paths_def Let_def snprintf_def)
qed

lemma configure_bounded:
  "\<exists>v. configure p (build_paths dir base) DYLD_LIBRARY_PATH = Some v \<and> length v < 2 * MAX_PATH"
  "\<exists>v. configure p (build_paths dir base) VK_ICD_FILENAMES = Some v
       \<and> configure p (build_paths dir base) VK_DRIVER_FILES = Some v \<and> length v < MAX_PATH"
proof -
  have pos: "0 < MAX_PATH * 2"
    by (simp add: MAX_PATH_def)
  show "\<exists>v. configure p (build_paths dir base) DYLD_LIBRARY_PATH = Some v
      \<and> length v < 2 * MAX_PATH"
    using snprintf_length [OF pos]
    by (simp add: configure_dyld add_homebrew_loader_path_value set_dyld_library_path_value
        mult.commute)
  have "length (select_icd_path p (icd_path (build_paths dir base))) < MAX_PATH"
    using build_paths_bounded(4) [of dir base]
    by (simp add: select_icd_path_cascade) (simp add: brew_icd_def local_icd_def MAX_PATH_def)
  then show "\<exists>v. configure p (build_paths dir base) VK_ICD_FILENAMES = Some v
      \<and> configure p (build_paths dir base) VK_DRIVER_FILES = Some v \<and> length v < MAX_PATH"
    by (simp add: configure_icd)
qed

text \<open>
  C10. Every derived string is shorter than the array it is stored in (\<^verbatim>\<open>MAX_PATH\<close>
  bytes, \<^verbatim>\<open>2 * MAX_PATH\<close> for the search path), so the string and its terminator fit;
  what is stored is the composed text cut to the array's size less one; however long
  the texts are, the launcher reports nothing and goes on to \<^verbatim>\<open>execvp\<close>. On the byte
  arrays, each write as \<^verbatim>\<open>main\<close> makes it leaves the array's length unchanged and
  leaves in it a terminated string, the one the string-level function gives.
\<close>

theorem buffers_bounded:
  fixes p :: platform and rp :: string
  defines "D \<equiv> dirname p rp" and "N \<equiv> basename p rp"
  defines "b \<equiv> build_paths D N"
  assumes "NSGetExecutablePath p MAX_PATH = Some exe" and "realpath p exe = Some rp"
  shows "length (exe_name b) < MAX_PATH \<and> length (dll_name b) < MAX_PATH
       \<and> length (dll_path b) < MAX_PATH \<and> length (icd_path b) < MAX_PATH
       \<and> length (dyld_path b) < MAX_PATH \<and> length (native_path b) < MAX_PATH
       \<and> (\<exists>v. configure p b DYLD_LIBRARY_PATH = Some v \<and> length v < 2 * MAX_PATH)
       \<and> (\<exists>v. configure p b VK_ICD_FILENAMES = Some v \<and> configure p b VK_DRIVER_FILES = Some v
              \<and> length v < MAX_PATH)
       \<and> exe_name b = take (MAX_PATH - 1) N
       \<and> dll_name b = take (MAX_PATH - 1) (N @ ''.dll'')
       \<and> dll_path b = take (MAX_PATH - 1) (D @ ''/'' @ N @ ''.dll'')
       \<and> icd_path b = take (MAX_PATH - 1) (D @ ''/runtimes/osx/native/MoltenVK_icd.json'')
       \<and> dyld_path b = take (MAX_PATH - 1) D
       \<and> native_path b = take (MAX_PATH - 1) (D @ ''/runtimes/osx/native'')
       \<and> set_dyld_library_path b (environ p) DYLD_LIBRARY_PATH =
           Some (take (MAX_PATH * 2 - 1)
             (dyld_path b @ '':'' @ native_path b @
                (case environ p DYLD_LIBRARY_PATH of
                   None \<Rightarrow> [] | Some V \<Rightarrow> if V = [] then [] else '':'' @ V)))
       \<and> (\<exists>args. main p argv =
             (if execvp p ''dotnet'' args (configure p b)
              then Replaced ''dotnet'' args (configure p b) else Exit 1 [msg_no_exec]))
       \<and> (NUL \<notin> set formatted \<and> length buf = MAX_PATH \<longrightarrow>
             length (snprintf_bytes buf MAX_PATH formatted) = length buf
             \<and> c_str (snprintf_bytes buf MAX_PATH formatted) = snprintf MAX_PATH formatted)
       \<and> (NUL \<notin> set formatted \<and> length new_dyld = MAX_PATH * 2 \<longrightarrow>
             length (snprintf_bytes new_dyld (MAX_PATH * 2) formatted) = length new_dyld
             \<and> c_str (snprintf_bytes new_dyld (MAX_PATH * 2) formatted) = snprintf (MAX_PATH * 2) formatted)
       \<and> (NUL \<notin> set src \<and> length dst = MAX_PATH \<longrightarrow>
             length ((strncpy_bytes dst src (MAX_PATH - 1))[MAX_PATH - 1 := NUL]) = length dst
             \<and> c_str ((strncpy_bytes dst src (MAX_PATH - 1))[MAX_PATH - 1 := NUL])
                 = strncpy_terminated (MAX_PATH - 1) src)"
proof -
  have run: "\<exists>args. main p argv =
      (if execvp p ''dotnet'' args (configure p b)
       then Replaced ''dotnet'' args (configure p b) else Exit 1 [msg_no_exec])"
    using main_started [OF assms(4,5), of argv] by (auto simp add: Let_def b_def D_def N_def)
  have dyld: "set_dyld_library_path b (environ p) DYLD_LIBRARY_PATH =
      Some (take (MAX_PATH * 2 - 1)
        (dyld_path b @ '':'' @ native_path b @
           (case environ p DYLD_LIBRARY_PATH of
              None \<Rightarrow> [] | Some V \<Rightarrow> if V = [] then [] else '':'' @ V)))"
    by (simp only: set_dyld_library_path_value snprintf_def)
  have pos: "0 < MAX_PATH" "0 < MAX_PATH * 2"
    by (simp_all add: MAX_PATH_def)
  have small: "NUL \<notin> set formatted \<and> length buf = MAX_PATH \<longrightarrow>
      length (snprintf_bytes buf MAX_PATH formatted) = length buf
      \<and> c_str (snprintf_bytes buf MAX_PATH formatted) = snprintf MAX_PATH formatted"
    using snprintf_bytes_refines [of formatted MAX_PATH buf] pos(1) by simp
  have large: "NUL \<notin> set formatted \<and> length new_dyld = MAX_PATH * 2 \<longrightarrow>
      length (snprintf_bytes new_dyld (MAX_PATH * 2) formatted) = length new_dyld
      \<and> c_str (snprintf_bytes new_dyld (MAX_PATH * 2) formatted) = snprintf (MAX_PATH * 2) formatted"
    using snprintf_bytes_refines [of formatted "MAX_PATH * 2" new_dyld] pos(2) by simp
  have copy: "NUL \<notin> set src \<and> length dst = MAX_PATH \<longrightarrow>
      length ((strncpy_bytes dst src (MAX_PATH - 1))[MAX_PATH - 1 := NUL]) = length dst
      \<and> c_str ((strncpy_bytes dst src (MAX_PATH - 1))[MAX_PATH - 1 := NUL])
          = strncpy_terminated (MAX_PATH - 1) src"
    using strncpy_bytes_refines [of src dst "MAX_PATH - 1"] pos(1) by simp
  show ?thesis
    unfolding b_def
    by (intro conjI build_paths_bounded configure_bounded build_paths_cut
        run [unfolded b_def] dyld [unfolded b_def] small large copy)
qed

theorem buffers_bounded_witness:
  "NSGetExecutablePath
       (example_platform (long_dir @ ''/Foo'') [] [(''DYLD_LIBRARY_PATH'', long_value)]) MAX_PATH
     = Some (long_dir @ ''/Foo'')
   \<and> realpath
       (example_platform (long_dir @ ''/Foo'') [] [(''DYLD_LIBRARY_PATH'', long_value)])
       (long_dir @ ''/Foo'')
     = Some (long_dir @ ''/Foo'')
   \<and> MAX_PATH \<le> length (long_dir @ ''/'' @ ''Foo'' @ ''.dll'')
   \<and> dll_path (build_paths long_dir ''Foo'') = take (MAX_PATH - 1) (long_dir @ ''/'' @ ''Foo'' @ ''.dll'')
   \<and> dll_path (build_paths long_dir ''Foo'') = long_dir @ ''/Foo.d''
   \<and> length (dll_path (build_paths long_dir ''Foo'')) < MAX_PATH
   \<and> main (example_platform (long_dir @ ''/Foo'') [] [(''DYLD_LIBRARY_PATH'', long_value)]) [''Foo'']
     = Replaced ''dotnet'' [''dotnet'', long_dir @ ''/Foo.d'']
         (configure
            (example_platform (long_dir @ ''/Foo'') [] [(''DYLD_LIBRARY_PATH'', long_value)])
            (build_paths long_dir ''Foo''))
   \<and> NUL \<notin> set (long_dir @ ''/Foo.dll'')
   \<and> length (replicate 4096 CHR ''x'') = MAX_PATH
   \<and> length (snprintf_bytes (replicate 4096 CHR ''x'') MAX_PATH (long_dir @ ''/Foo.dll''))
     = MAX_PATH
   \<and> c_str (snprintf_bytes (replicate 4096 CHR ''x'') MAX_PATH (long_dir @ ''/Foo.dll''))
     = long_dir @ ''/Foo.d''"
proof -
  let ?p = "example_platform (long_dir @ ''/Foo'') [] [(''DYLD_LIBRARY_PATH'', long_value)]"
  let ?text = "long_dir @ ''/Foo.dll''"
  let ?buf = "replicate 4096 CHR ''x''"
  have started: "NSGetExecutablePath ?p MAX_PATH = Some (long_dir @ ''/Foo'')"
      "realpath ?p (long_dir @ ''/Foo'') = Some (long_dir @ ''/Foo'')"
    by (simp_all add: example_platform_simps MAX_PATH_def long_dir_length)
  have names: "dirname ?p (long_dir @ ''/Foo'') = long_dir"
      "basename ?p (long_dir @ ''/Foo'') = ''Foo''"
    by (simp_all add: example_platform_simps long_dir_paths)
  have nul_free: "NUL \<notin> set ?text"
    by (simp add: long_dir_def NUL_def)
  have size: "length ?buf = MAX_PATH"
    by (simp add: MAX_PATH_def)
  note bounded = buffers_bounded [OF started, of "[''Foo'']" ?text ?buf, unfolded names]
  have fits: "length (dll_path (build_paths long_dir ''Foo'')) < MAX_PATH"
    using bounded by blast
  have cut: "dll_path (build_paths long_dir ''Foo'')
      = take (MAX_PATH - 1) (long_dir @ ''/'' @ ''Foo'' @ ''.dll'')"
    using bounded by blast
  have bytes: "length (snprintf_bytes ?buf MAX_PATH ?text) = length ?buf
      \<and> c_str (snprintf_bytes ?buf MAX_PATH ?text) = snprintf MAX_PATH ?text"
    using bounded nul_free size by blast
  have stored: "snprintf MAX_PATH ?text = long_dir @ ''/Foo.d''"
    by (simp add: snprintf_def MAX_PATH_def long_dir_length)
  have too_long: "MAX_PATH \<le> length (long_dir @ ''/'' @ ''Foo'' @ ''.dll'')"
    by (simp add: long_dir_length MAX_PATH_def)
  from started too_long cut fits nul_free size bytes show ?thesis
    by (simp only: long_dir_run long_dir_build_paths stored simp_thms)
qed

end
